theory Spec2Isabelle
  imports Main "HOL-Library.Log_Nat" "HOL-Library.Multiset"
begin

section \<open>The Indeed scraper of JobFunnel (jobfunnel/backend/scrapers/indeed.py)\<close>

text \<open>
  The scraper is embedded function by function. Python exceptions are values of
  \<open>py_error\<close> and a call that may raise returns \<open>py_error + 'a\<close>. Python's \<open>int\<close>
  is \<open>int\<close>, \<open>str\<close> is \<open>string\<close>, the result dictionary is a map. Log calls and
  HTTP requests are collected in a trace of events, in the order they happen.
\<close>

subsection \<open>Exceptions and results\<close>

datatype py_error =
    AttributeError
  | IndexError
  | ValueError
  | TypeError
  | ZeroDivisionError
  | OverflowError
  | NotImplementedError
  | OtherError string

type_synonym 'a result = "py_error + 'a"

text \<open>Sequencing of two calls: the second runs only when the first did not raise.\<close>

definition and_then :: "'a result \<Rightarrow> ('a \<Rightarrow> 'b result) \<Rightarrow> 'b result" where
  "and_then r f = (case r of Inl e \<Rightarrow> Inl e | Inr x \<Rightarrow> f x)"

subsection \<open>RadiusQuantizer: \<open>BaseIndeedScraper.convert_radius\<close>\<close>

text \<open>
  The source is an \<open>if\<close>/\<open>elif\<close> chain with no final \<open>else\<close>: a radius that no branch
  takes would be returned unchanged, which the last line of the model keeps.
\<close>

definition convert_radius :: "int \<Rightarrow> int" where
  "convert_radius radius =
     (if radius < 5 then 0
      else if 5 \<le> radius \<and> radius < 10 then 5
      else if 10 \<le> radius \<and> radius < 15 then 10
      else if 15 \<le> radius \<and> radius < 25 then 15
      else if 25 \<le> radius \<and> radius < 50 then 25
      else if 50 \<le> radius \<and> radius < 100 then 50
      else if radius \<ge> 100 then 100
      else radius)"

text \<open>
  The specification's table of half-open intervals \<open>[lo, hi) \<rightarrow> bucket\<close>; the last
  interval \<open>[100, \<infinity>)\<close> has no upper end.
\<close>

definition spec_radius_intervals :: "(int \<times> int option \<times> int) list" where
  "spec_radius_intervals =
     [(0, Some 5, 0), (5, Some 10, 5), (10, Some 15, 10), (15, Some 25, 15),
      (25, Some 50, 25), (50, Some 100, 50), (100, None, 100)]"

fun in_interval :: "int \<Rightarrow> int \<times> int option \<times> int \<Rightarrow> bool" where
  "in_interval r (lo, None, b) = (lo \<le> r)"
| "in_interval r (lo, Some hi, b) = (lo \<le> r \<and> r < hi)"

text \<open>The bucket the specification's table gives: that of the first interval holding \<open>r\<close>.\<close>

definition spec_bucket :: "int \<Rightarrow> int option" where
  "spec_bucket r = map_option (\<lambda>(lo, hi, b). b) (find (in_interval r) spec_radius_intervals)"

subsection \<open>Strings\<close>

text \<open>
  Strings are lists of bytes. \<open>str.strip()\<close> removes the white space of both ends
  (for ASCII: tab, the line breaks, the separators \<open>0x1c\<close> to \<open>0x1f\<close> and the space).
\<close>

definition isspace :: "char \<Rightarrow> bool" where
  "isspace c = ((of_char c :: nat) \<in> set [9, 10, 11, 12, 13, 28, 29, 30, 31, 32])"

definition isdigit :: "char \<Rightarrow> bool" where
  "isdigit c = (48 \<le> (of_char c :: nat) \<and> (of_char c :: nat) \<le> 57)"

definition isalnum :: "char \<Rightarrow> bool" where
  "isalnum c =
     (let n = (of_char c :: nat)
      in (48 \<le> n \<and> n \<le> 57) \<or> (65 \<le> n \<and> n \<le> 90) \<or> (97 \<le> n \<and> n \<le> 122))"

definition strip :: "string \<Rightarrow> string" where
  "strip s = rev (dropWhile isspace (rev (dropWhile isspace s)))"

text \<open>\<open>s.replace(old, new)\<close> for a one-character \<open>old\<close>.\<close>

definition replace_char :: "char \<Rightarrow> string \<Rightarrow> string \<Rightarrow> string" where
  "replace_char old new s = concat (map (\<lambda>c. if c = old then new else [c]) s)"

fun join :: "string \<Rightarrow> string list \<Rightarrow> string" where
  "join sep [] = []"
| "join sep [x] = x"
| "join sep (x # y # ys) = x @ sep @ join sep (y # ys)"

text \<open>The decimal text of an integer, as \<open>str\<close> and f-strings print it.\<close>

fun digits_of_nat :: "nat \<Rightarrow> string" where
  "digits_of_nat n =
     (if n < 10 then [char_of (48 + n)]
      else digits_of_nat (n div 10) @ [char_of (48 + n mod 10)])"

declare digits_of_nat.simps [simp del]

definition str_of_int :: "int \<Rightarrow> string" where
  "str_of_int i = (if i < 0 then CHR ''-'' # digits_of_nat (nat (- i)) else digits_of_nat (nat i))"

text \<open>
  \<open>int(s)\<close> on a text of decimal digits; any other text is a \<open>ValueError\<close> here (the
  source only passes what \<open>\d+\<close> has matched).
\<close>

definition py_int :: "string \<Rightarrow> int result" where
  "py_int s =
     (if s \<noteq> [] \<and> list_all isdigit s
      then Inr (foldl (\<lambda>n c. 10 * n + (int (of_char c) - 48)) 0 s)
      else Inl ValueError)"

subsection \<open>The two regular expressions\<close>

text \<open>
  Both patterns of the source, \<open>f (\d+) \<close> and \<open>id="sj_([a-zA-Z0-9]*)"\<close>, are a literal,
  a greedy run of one character class (the group) and one closing character outside
  the class. Such a pattern matches at a position exactly when the literal is there
  and the longest run of the class is followed by the closing character: giving back
  characters of the run cannot help, the next character would be of the class.
  \<open>match_at\<close> returns the group and the text after the match. The classes are the
  ASCII digits and letters.
\<close>

definition match_at ::
  "string \<Rightarrow> (char \<Rightarrow> bool) \<Rightarrow> nat \<Rightarrow> char \<Rightarrow> string \<Rightarrow> (string \<times> string) option" where
  "match_at lit cls least close s =
     (if take (length lit) s = lit
      then (let r = drop (length lit) s; g = takeWhile cls r; r' = dropWhile cls r
            in (case r' of
                  [] \<Rightarrow> None
                | c # rest \<Rightarrow> if least \<le> length g \<and> c = close then Some (g, rest) else None))
      else None)"

lemma match_at_shorter:
  "match_at lit cls least close s = Some (g, rest) \<Longrightarrow> length rest < length s"
proof -
  assume m: "match_at lit cls least close s = Some (g, rest)"
  then obtain c where "dropWhile cls (drop (length lit) s) = c # rest"
    by (auto simp: match_at_def Let_def split: if_splits list.splits)
  then have "Suc (length rest) = length (dropWhile cls (drop (length lit) s))"
    by simp
  also have "\<dots> \<le> length (drop (length lit) s)"
    by (rule length_dropWhile_le)
  also have "\<dots> \<le> length s"
    by simp
  finally show ?thesis by simp
qed

text \<open>
  \<open>re.findall\<close> with one group: the groups of the matches found from left to right,
  the search going on behind each match, and one character further where none is.
\<close>

function findall :: "string \<Rightarrow> (char \<Rightarrow> bool) \<Rightarrow> nat \<Rightarrow> char \<Rightarrow> string \<Rightarrow> string list" where
  "findall lit cls least close [] = []"
| "findall lit cls least close (c # cs) =
     (case match_at lit cls least close (c # cs) of
        Some (g, rest) \<Rightarrow> g # findall lit cls least close rest
      | None \<Rightarrow> findall lit cls least close cs)"
  by pat_completeness auto
termination
  by (relation "measure (\<lambda>(lit, cls, least, close, s). length s)")
     (auto dest: match_at_shorter)

text \<open>\<open>xs[0]\<close>: an \<open>IndexError\<close> on the empty list.\<close>

definition first_item :: "'a list \<Rightarrow> 'a result" where
  "first_item xs = (case xs of [] \<Rightarrow> Inl IndexError | x # _ \<Rightarrow> Inr x)"

subsection \<open>True division and \<open>math.ceil\<close>\<close>

text \<open>
  \<open>a / b\<close> on two Python integers is a \<open>float\<close>: the IEEE 754 double nearest to the
  exact quotient, ties to the even significand (CPython rounds the quotient of the
  two integers once). A finite double is \<open>F64 m e\<close>, standing for \<open>m * 2 ^ e\<close> with
  \<open>|m| \<le> 2 ^ 53\<close> and \<open>e \<ge> -1074\<close>. In \<open>true_divide\<close>, \<open>k\<close> is the binary exponent of
  the quotient (\<open>2 ^ k \<le> x / y < 2 ^ (k + 1)\<close>), \<open>e\<close> the weight of the last of the 53 bits
  of the significand, not below that of the subnormal numbers, and \<open>m\<close> the quotient
  in units of \<open>2 ^ e\<close>, rounded; a result of \<open>2 ^ 1024\<close> or more is an \<open>OverflowError\<close>.
\<close>

datatype float64 = F64 int int

definition round_half_even :: "int \<Rightarrow> int \<Rightarrow> int" where
  "round_half_even num den =
     (let q = num div den; r = num mod den
      in if 2 * r < den then q
         else if den < 2 * r then q + 1
         else if even q then q else q + 1)"

definition true_divide :: "int \<Rightarrow> int \<Rightarrow> float64 result" where
  "true_divide a b =
     (if b = 0 then Inl ZeroDivisionError
      else if a = 0 then Inr (F64 0 0)
      else
        (let sgn = (if (a < 0) = (b < 0) then 1 else - 1);
             x = \<bar>a\<bar>; y = \<bar>b\<bar>;
             d = bitlen x - bitlen y;
             k = (if y * 2 ^ nat d \<le> x * 2 ^ nat (- d) then d else d - 1);
             e = max (k - 52) (- 1074);
             m = round_half_even (x * 2 ^ nat (- e)) (y * 2 ^ nat e)
         in if 2 ^ 1024 \<le> m * 2 ^ nat e then Inl OverflowError
            else Inr (F64 (sgn * m) e)))"

text \<open>\<open>math.ceil\<close> of a finite double is an exact integer.\<close>

fun ceil :: "float64 \<Rightarrow> int" where
  "ceil (F64 m e) = (if 0 \<le> e then m * 2 ^ nat e else - ((- m) div 2 ^ nat (- e)))"

subsection \<open>Data model\<close>

text \<open>
  Modelled from the spec: \<open>Locale\<close>, \<open>JobStatus\<close>, \<open>SearchTerms\<close> and \<open>Job\<close> are declared
  outside this file of the source. They are given here with the members the scraper
  uses; the fields of \<open>Job\<close> are those of section 3 of the specification and of the
  constructor call in \<open>scrape\<close>, and the constructor is taken to store its arguments.
\<close>

datatype Locale = CANADA_ENGLISH | USA_ENGLISH

datatype JobStatus = NEW | OtherStatus string

record SearchTerms =
  search_keywords :: "string list"
  city :: string
  province :: string
  state :: string
  radius :: int
  region_radius :: int
  return_similar_results :: bool

text \<open>
  The scraper object: the attributes \<open>__init__\<close> sets, and the \<open>locale\<close> property by
  which the two subclasses \<open>IndeedScraperCAEng\<close> and \<open>IndeedScraperUSAEng\<close> differ.
\<close>

record IndeedScraper =
  search_terms :: SearchTerms
  max_results_per_page :: int
  self_query :: string
  self_locale :: Locale

definition init :: "Locale \<Rightarrow> SearchTerms \<Rightarrow> IndeedScraper" where
  "init loc terms =
     \<lparr>search_terms = terms,
      max_results_per_page = 50,
      self_query = join ''+'' (search_keywords terms),
      self_locale = loc\<rparr>"

text \<open>
  A listing fragment (the \<open>div\<close> of one organic job) is what BeautifulSoup answers to
  the queries the scraper makes on it: for each \<open>find\<close>, \<open>None\<close> when no element
  matches, else the \<open>.text\<close> of the element found (for the shelf table the texts of
  its \<open>td\<close> items, for the save-job link the markup that \<open>str\<close> gives).
\<close>

record job_soup =
  jobTitle :: "string option"
  company_span :: "string option"
  location_span :: "string option"
  jobCardShelf :: "string list option"
  date_span :: "string option"
  save_job_link :: "string option"

datatype node = NavigableString string | Tag

record page_soup =
  searchCountPages :: "node list option"
  organicJob :: "job_soup list"
  jobDescriptionText :: "string option"

datatype datetime = Datetime int int int

text \<open>\<open>Job.post_date\<close> is \<open>None\<close>, the scraped relative text, or a \<open>datetime\<close>.\<close>

datatype date_field = NoDate | RelativeDate string | AbsoluteDate datetime

record Job =
  title :: string
  company :: string
  location :: string
  description :: string
  key_id :: string
  url :: string
  job_locale :: Locale
  query :: string
  status :: JobStatus
  provider :: string
  short_description :: "string option"
  post_date :: date_field
  raw :: job_soup
  tags :: "string list"

subsection \<open>Collaborators and the trace\<close>

datatype level = INFO | WARNING | ERROR

datatype event = Logged level string | Requested string

text \<open>
  What the scraper calls and this file of the source does not define: the HTTP
  session (\<open>session.get(url).text\<close>, which may raise), the HTML parser, the domain of
  a locale, the conversion of a relative date text at the time of the call (the
  body of \<open>Job.set_post_date_from_relative_date\<close>) and \<open>Job.clean_strings\<close>.
\<close>

record collaborators =
  session_get :: "string \<Rightarrow> string result"
  BeautifulSoup :: "string \<Rightarrow> page_soup"
  get_domain_from_locale :: "Locale \<Rightarrow> string"
  relative_date :: "date_field \<Rightarrow> datetime result"
  clean_strings :: "Job \<Rightarrow> Job"

text \<open>A computation that logs and requests: its result, and the events up to it.\<close>

type_synonym 'a run = "'a result \<times> event list"

definition bind_run :: "'a run \<Rightarrow> ('a \<Rightarrow> 'b run) \<Rightarrow> 'b run" where
  "bind_run m f =
     (case m of
        (Inl e, ev) \<Rightarrow> (Inl e, ev)
      | (Inr x, ev) \<Rightarrow> (case f x of (r, ev') \<Rightarrow> (r, ev @ ev')))"

definition log :: "level \<Rightarrow> string \<Rightarrow> unit run" where
  "log lvl msg = (Inr (), [Logged lvl msg])"

definition get_text :: "collaborators \<Rightarrow> string \<Rightarrow> string run" where
  "get_text c u = (session_get c u, [Requested u])"

text \<open>
  \<open>try: x = f(s)  except AttributeError: logger.warning(msg)\<close>, where \<open>x\<close> keeps its
  initial value when the handler runs; another exception is not caught.
\<close>

definition try_or_warn :: "'a result \<Rightarrow> 'a \<Rightarrow> string \<Rightarrow> 'a run" where
  "try_or_warn r initial msg =
     (case r of
        Inr x \<Rightarrow> (Inr x, [])
      | Inl e \<Rightarrow> if e = AttributeError then (Inr initial, [Logged WARNING msg]) else (Inl e, []))"

subsection \<open>Field extractors\<close>

text \<open>\<open>soup.find(...).text.strip()\<close>: \<open>find\<close> gives \<open>None\<close>, and \<open>None.text\<close> raises.\<close>

definition find_text :: "string option \<Rightarrow> string result" where
  "find_text found = (case found of None \<Rightarrow> Inl AttributeError | Some t \<Rightarrow> Inr (strip t))"

definition get_title :: "job_soup \<Rightarrow> string result" where
  "get_title soup = find_text (jobTitle soup)"

definition get_company :: "job_soup \<Rightarrow> string result" where
  "get_company soup = find_text (company_span soup)"

definition get_location :: "job_soup \<Rightarrow> string result" where
  "get_location soup = find_text (location_span soup)"

definition get_tags :: "job_soup \<Rightarrow> string list result" where
  "get_tags soup =
     (case jobCardShelf soup of None \<Rightarrow> Inl AttributeError | Some tds \<Rightarrow> Inr (map strip tds))"

definition get_date :: "job_soup \<Rightarrow> string result" where
  "get_date soup = find_text (date_span soup)"

text \<open>
  \<open>get_id\<close> applies the pattern to \<open>str(soup.find(...))\<close>, which is the text \<open>None\<close> when
  the link is not found, and takes the first match.
\<close>

definition get_id :: "job_soup \<Rightarrow> string result" where
  "get_id soup =
     first_item
       (findall ''id=\"sj_'' isalnum 0 (CHR 0x22)
          (case save_job_link soup of None \<Rightarrow> ''None'' | Some markup \<Rightarrow> markup))"

definition get_link :: "collaborators \<Rightarrow> IndeedScraper \<Rightarrow> string \<Rightarrow> string" where
  "get_link c self job_id =
     ''http://www.indeed.'' @ get_domain_from_locale c (self_locale self)
       @ ''/viewjob?jk='' @ job_id"

definition get_search_url :: "collaborators \<Rightarrow> IndeedScraper \<Rightarrow> string \<Rightarrow> string result" where
  "get_search_url c self method =
     (if method = ''get'' then
        Inr (''https://www.indeed.'' @ get_domain_from_locale c (self_locale self)
             @ ''/jobs?q='' @ self_query self
             @ ''&l='' @ replace_char (CHR '' '') ''+'' (city (search_terms self))
             @ ''%2C+''
             @ (case self_locale self of
                  CANADA_ENGLISH \<Rightarrow> province (search_terms self)
                | USA_ENGLISH \<Rightarrow> state (search_terms self))
             @ ''&radius=''
             @ str_of_int (convert_radius
                 (case self_locale self of
                    CANADA_ENGLISH \<Rightarrow> radius (search_terms self)
                  | USA_ENGLISH \<Rightarrow> region_radius (search_terms self)))
             @ ''&limit='' @ str_of_int (max_results_per_page self)
             @ ''&filter=''
             @ str_of_int (if return_similar_results (search_terms self) then 1 else 0))
      else if method = ''post'' then Inl NotImplementedError
      else Inl ValueError)"

subsection \<open>PageLocator: \<open>get_num_pages_to_scrape\<close>\<close>

text \<open>
  \<open>contents[0].strip()\<close>: no element is an \<open>AttributeError\<close>, no child an \<open>IndexError\<close>;
  a child that is a tag has no \<open>strip\<close> to call.
\<close>

definition search_count_text :: "page_soup \<Rightarrow> string result" where
  "search_count_text soup_base =
     (case searchCountPages soup_base of
        None \<Rightarrow> Inl AttributeError
      | Some contents \<Rightarrow>
          and_then (first_item contents)
            (\<lambda>child. case child of NavigableString t \<Rightarrow> Inr (strip t) | Tag \<Rightarrow> Inl TypeError))"

text \<open>Lines 249 to 255: the number of pages for \<open>num_res\<close> results.\<close>

definition pages_for :: "IndeedScraper \<Rightarrow> int \<Rightarrow> int \<Rightarrow> int result" where
  "pages_for self num_res max_pages =
     and_then (true_divide num_res (max_results_per_page self))
       (\<lambda>quotient.
          let number_of_pages = ceil quotient
          in if max_pages = 0 then Inr number_of_pages
             else if number_of_pages < max_pages then Inr number_of_pages
             else Inr max_pages)"

text \<open>Lines 247 and 248: the number of results the first page announces.\<close>

definition total_results :: "page_soup \<Rightarrow> int result" where
  "total_results soup_base =
     and_then (search_count_text soup_base)
       (\<lambda>num_res.
          and_then (first_item (findall ''f '' isdigit 1 (CHR '' '')
                                  (replace_char (CHR '','') [] num_res)))
            py_int)"

definition get_num_pages_to_scrape :: "IndeedScraper \<Rightarrow> page_soup \<Rightarrow> int \<Rightarrow> int result" where
  "get_num_pages_to_scrape self soup_base max_pages =
     and_then (total_results soup_base) (\<lambda>num_res. pages_for self num_res max_pages)"

subsection \<open>PageFetcher: \<open>search_page_for_job_soups\<close> and the thread pool\<close>

text \<open>
  One task of the pool: it logs, requests the page and extends the shared list by
  the fragments of the page. An exception of the request stays in the task's future,
  which \<open>scrape\<close> never reads: the list is then left as it was.
\<close>

definition page_url :: "IndeedScraper \<Rightarrow> string \<Rightarrow> int \<Rightarrow> string" where
  "page_url self search page =
     search @ ''&start='' @ str_of_int (page * max_results_per_page self)"

definition search_page_for_job_soups ::
  "collaborators \<Rightarrow> IndeedScraper \<Rightarrow> string \<Rightarrow> int \<Rightarrow> job_soup list \<Rightarrow> job_soup list \<times> event list" where
  "search_page_for_job_soups c self search page job_soup_list =
     (let u = page_url self search page;
          ev = [Logged INFO (''getting indeed page '' @ str_of_int page @ '' : '' @ u),
                Requested u]
      in (case session_get c u of
            Inl e \<Rightarrow> (job_soup_list, ev)
          | Inr text \<Rightarrow> (job_soup_list @ organicJob (BeautifulSoup c text), ev)))"

text \<open>
  \<open>ThreadPoolExecutor(max_workers=8)\<close>, \<open>submit\<close> for each argument in order, \<open>wait\<close>:
  every submitted task runs once. The workers take the tasks in the order of
  submission, so the task that finishes next is one of the first eight that have
  not finished; which one is the scheduler's choice, given as a list of numbers
  (when the list is used up, the first task). A task is taken as one step.
\<close>

definition max_workers :: nat where
  "max_workers = 8"

fun run_pool ::
  "nat list \<Rightarrow> ('a \<Rightarrow> 's \<Rightarrow> 's \<times> event list) \<Rightarrow> 'a list \<Rightarrow> 's \<Rightarrow> 's \<times> event list" where
  "run_pool sched task [] shared = (shared, [])"
| "run_pool [] task (a # args) shared =
     (case task a shared of
        (shared', ev) \<Rightarrow>
          (case run_pool [] task args shared' of (shared'', ev') \<Rightarrow> (shared'', ev @ ev')))"
| "run_pool (n # sched) task (a # args) shared =
     (let i = n mod min max_workers (length (a # args))
      in (case task ((a # args) ! i) shared of
            (shared', ev) \<Rightarrow>
              (case run_pool sched task (take i (a # args) @ drop (Suc i) (a # args)) shared' of
                 (shared'', ev') \<Rightarrow> (shared'', ev @ ev'))))"

text \<open>\<open>range(0, pages)\<close>.\<close>

definition range0 :: "int \<Rightarrow> int list" where
  "range0 pages = map int [0 ..< nat pages]"

subsection \<open>ListingExtractor and Aggregator: the loop of \<open>scrape\<close>\<close>

definition epoch :: datetime where
  "epoch = Datetime 1970 1 1"

text \<open>
  Modelled from the spec: \<open>Job.set_post_date_from_relative_date\<close> is a method of \<open>Job\<close>,
  defined outside this file of the source. By sections 3 and 4.4 of the
  specification it converts the relative date text of the record into an absolute
  date and changes nothing but \<open>post_date\<close>, or fails; the conversion itself is the
  collaborator \<open>relative_date\<close>.
\<close>

definition set_post_date_from_relative_date :: "collaborators \<Rightarrow> Job \<Rightarrow> Job result" where
  "set_post_date_from_relative_date c job =
     and_then (relative_date c (post_date job))
       (\<lambda>d. Inr (job\<lparr>post_date := AbsoluteDate d\<rparr>))"

text \<open>Lines 82 to 88: the fields a job must have.\<close>

definition required_stage ::
  "collaborators \<Rightarrow> IndeedScraper \<Rightarrow> job_soup
     \<Rightarrow> (string \<times> string \<times> string \<times> string \<times> string) result" where
  "required_stage c self s =
     and_then (get_title s) (\<lambda>title'.
     and_then (get_company s) (\<lambda>company'.
     and_then (get_location s) (\<lambda>location'.
     and_then (get_id s) (\<lambda>key_id'.
       Inr (title', company', location', key_id', get_link c self key_id')))))"

text \<open>
  Lines 106 to 121: the call of the constructor \<open>Job(...)\<close>, each field with the
  argument the source passes for it.
\<close>

definition new_job ::
  "IndeedScraper \<Rightarrow> job_soup \<Rightarrow> string \<times> string \<times> string \<times> string \<times> string
     \<Rightarrow> string list \<Rightarrow> string option \<Rightarrow> Job" where
  "new_job self s required tags' post_date' =
     (case required of
        (title', company', location', key_id', url') \<Rightarrow>
          \<lparr>title = title',
           company = company',
           location = location',
           description = [],
           key_id = key_id',
           url = url',
           job_locale = self_locale self,
           query = self_query self,
           status = NEW,
           provider = ''indeed'',
           short_description = None,
           post_date = (case post_date' of None \<Rightarrow> NoDate | Some t \<Rightarrow> RelativeDate t),
           raw = s,
           tags = tags'\<rparr>)"

text \<open>Lines 130 to 136: the date is made absolute, or set to the epoch.\<close>

definition fix_date :: "collaborators \<Rightarrow> Job \<Rightarrow> Job run" where
  "fix_date c job =
     (case set_post_date_from_relative_date c job of
        Inr job' \<Rightarrow> (Inr job', [])
      | Inl e \<Rightarrow>
          if e = ValueError
          then (Inr (job\<lparr>post_date := AbsoluteDate epoch\<rparr>),
                [Logged ERROR (''Unknown date for job '' @ key_id job
                                 @ '', setting to epoch date.'')])
          else (Inl e, []))"

text \<open>
  The body of the loop, lines 76 to 139, for one fragment \<open>s\<close>: the dictionary after
  it, or the exception that leaves \<open>scrape\<close>.
\<close>

definition scrape_job_soup ::
  "collaborators \<Rightarrow> IndeedScraper \<Rightarrow> job_soup \<Rightarrow> (string \<rightharpoonup> Job) \<Rightarrow> (string \<rightharpoonup> Job) run" where
  "scrape_job_soup c self s jobs_dict =
     (case required_stage c self s of
        Inl e \<Rightarrow>
          if e = AttributeError
          then (Inr jobs_dict, [Logged ERROR ''Unable to scrape minimum-required job info!''])
          else (Inl e, [])
      | Inr required \<Rightarrow>
          (case required of
             (title', company', location', key_id', url') \<Rightarrow>
               bind_run (try_or_warn (get_tags s) []
                           (''Unable to scrape job tags for '' @ key_id')) (\<lambda>tags'.
               bind_run (try_or_warn (map_sum id Some (get_date s)) None
                           (''Unable to scrape job post date for '' @ key_id')) (\<lambda>post_date'.
               bind_run (fix_date c (new_job self s required tags' post_date')) (\<lambda>job.
                 (Inr (jobs_dict(key_id job \<mapsto> job)), []))))))"

fun scrape_job_soups ::
  "collaborators \<Rightarrow> IndeedScraper \<Rightarrow> job_soup list \<Rightarrow> (string \<rightharpoonup> Job) \<Rightarrow> (string \<rightharpoonup> Job) run" where
  "scrape_job_soups c self [] jobs_dict = (Inr jobs_dict, [])"
| "scrape_job_soups c self (s # rest) jobs_dict =
     bind_run (scrape_job_soup c self s jobs_dict) (scrape_job_soups c self rest)"

subsection \<open>Orchestrator: \<open>scrape\<close>\<close>

definition fetch_pages ::
  "collaborators \<Rightarrow> IndeedScraper \<Rightarrow> nat list \<Rightarrow> string \<Rightarrow> int \<Rightarrow> job_soup list \<times> event list" where
  "fetch_pages c self sched search pages =
     run_pool sched (search_page_for_job_soups c self search) (range0 pages) []"

text \<open>Lines 41 to 70: the first page, the page count and the fetch of all pages.\<close>

definition collect_job_soups :: "collaborators \<Rightarrow> IndeedScraper \<Rightarrow> nat list \<Rightarrow> job_soup list run" where
  "collect_job_soups c self sched =
     bind_run (get_search_url c self ''get'', []) (\<lambda>search.
     bind_run (get_text c search) (\<lambda>request_html.
     bind_run (get_num_pages_to_scrape self (BeautifulSoup c request_html) 0, []) (\<lambda>pages.
     bind_run (log INFO (''Found '' @ str_of_int pages @ '' indeed results for query=''
                           @ self_query self)) (\<lambda>_.
       (case fetch_pages c self sched search pages of
          (job_soup_list, ev) \<Rightarrow> (Inr job_soup_list, ev))))))"

text \<open>Lines 72 to 142: the loop over the collected fragments, from the empty dictionary.\<close>

definition scrape :: "collaborators \<Rightarrow> IndeedScraper \<Rightarrow> nat list \<Rightarrow> (string \<rightharpoonup> Job) run" where
  "scrape c self sched =
     bind_run (collect_job_soups c self sched) (\<lambda>job_soup_list.
       scrape_job_soups c self job_soup_list Map.empty)"

subsection \<open>SecondaryDescriptionFetcher: \<open>get_full_description\<close>\<close>

text \<open>The source changes the job in place; the model returns the job after the call.\<close>

definition get_full_description :: "collaborators \<Rightarrow> Job \<Rightarrow> Job run" where
  "get_full_description c job =
     bind_run (log INFO (''getting indeed page: '' @ url job)) (\<lambda>_.
     bind_run (get_text c (url job)) (\<lambda>page_text.
     bind_run (case jobDescriptionText (BeautifulSoup c page_text) of
                 Some t \<Rightarrow> (Inr (job\<lparr>short_description := Some (strip t)\<rparr>), [])
               | None \<Rightarrow>
                   (Inr (job\<lparr>short_description := Some []\<rparr>),
                    [Logged WARNING (''Unable to load description for: '' @ url job)]))
       (\<lambda>job'. (Inr (clean_strings c job'), []))))"

subsection \<open>Notions the properties are stated with\<close>

text \<open>The requests of a trace, in order.\<close>

fun requests :: "event list \<Rightarrow> string list" where
  "requests [] = []"
| "requests (Requested u # ev) = u # requests ev"
| "requests (Logged lvl msg # ev) = requests ev"

text \<open>
  The record as the constructor call of line 106 builds it for a fragment, before
  the date is made absolute: \<open>None\<close> when the required stage raises.
\<close>

definition extracted_job :: "collaborators \<Rightarrow> IndeedScraper \<Rightarrow> job_soup \<Rightarrow> Job option" where
  "extracted_job c self s =
     (case required_stage c self s of
        Inl e \<Rightarrow> None
      | Inr required \<Rightarrow>
          Some (new_job self s required
                  (case get_tags s of Inl e \<Rightarrow> [] | Inr t \<Rightarrow> t)
                  (case get_date s of Inl e \<Rightarrow> None | Inr d \<Rightarrow> Some d)))"

text \<open>
  The warnings of the optional stage of a fragment: one for the tags and one for the
  date, each when its own extraction raises.
\<close>

definition optional_warnings :: "job_soup \<Rightarrow> string \<Rightarrow> event list" where
  "optional_warnings s key_id' =
     (case get_tags s of
        Inl e \<Rightarrow> [Logged WARNING (''Unable to scrape job tags for '' @ key_id')]
      | Inr t \<Rightarrow> [])
     @ (case get_date s of
          Inl e \<Rightarrow> [Logged WARNING (''Unable to scrape job post date for '' @ key_id')]
        | Inr d \<Rightarrow> [])"

text \<open>
  What one fragment alone puts into the empty dictionary: its derived record under
  its \<open>key_id\<close>, or nothing.
\<close>

definition yields :: "collaborators \<Rightarrow> IndeedScraper \<Rightarrow> job_soup \<Rightarrow> (string \<rightharpoonup> Job)" where
  "yields c self s =
     (case fst (scrape_job_soup c self s Map.empty) of Inl e \<Rightarrow> Map.empty | Inr d \<Rightarrow> d)"

text \<open>
  The record of the last fragment, in the order of processing, that yields one
  under the key \<open>k\<close>.
\<close>

definition last_record ::
  "collaborators \<Rightarrow> IndeedScraper \<Rightarrow> job_soup list \<Rightarrow> string \<Rightarrow> Job option" where
  "last_record c self frags k =
     (case filter (\<lambda>s. yields c self s k \<noteq> None) frags of
        [] \<Rightarrow> None
      | s # ss \<Rightarrow> yields c self (last (s # ss)) k)"

text \<open>The key under which a fragment alone yields a record, if it yields one.\<close>

definition yield_key :: "collaborators \<Rightarrow> IndeedScraper \<Rightarrow> job_soup \<Rightarrow> string option" where
  "yield_key c self s =
     (case extracted_job c self s of
        None \<Rightarrow> None
      | Some job \<Rightarrow> (case fst (fix_date c job) of Inl e \<Rightarrow> None | Inr job' \<Rightarrow> Some (key_id job)))"

subsection \<open>A small site for the concrete checks\<close>

text \<open>
  A site is a list of addresses with the parsed page behind each; the text of a page
  is represented by its address, and an address outside the site does not answer.
  The date texts \<open>today\<close> and \<open>1 day ago\<close> are read on 2020-06-01, any other date
  field is a \<open>ValueError\<close>.
\<close>

definition empty_page :: page_soup where
  "empty_page = \<lparr>searchCountPages = None, organicJob = [], jobDescriptionText = None\<rparr>"

definition site :: "(string \<times> page_soup) list \<Rightarrow> collaborators" where
  "site pages =
     \<lparr>session_get = (\<lambda>u. case map_of pages u of
                             None \<Rightarrow> Inl (OtherError ''ConnectionError'')
                           | Some p \<Rightarrow> Inr u),
      BeautifulSoup = (\<lambda>t. case map_of pages t of None \<Rightarrow> empty_page | Some p \<Rightarrow> p),
      get_domain_from_locale = (\<lambda>l. case l of CANADA_ENGLISH \<Rightarrow> ''ca'' | USA_ENGLISH \<Rightarrow> ''com''),
      relative_date = (\<lambda>d. if d = RelativeDate ''today'' then Inr (Datetime 2020 6 1)
                             else if d = RelativeDate ''1 day ago'' then Inr (Datetime 2020 5 31)
                             else Inl ValueError),
      clean_strings = (\<lambda>job. job)\<rparr>"

definition ex_terms :: SearchTerms where
  "ex_terms =
     \<lparr>search_keywords = [''python'', ''developer''], city = ''Waterloo'', province = ''ON'',
      state = [], radius = 27, region_radius = 27, return_similar_results = False\<rparr>"

definition ex_scraper :: IndeedScraper where
  "ex_scraper = init CANADA_ENGLISH ex_terms"

definition ex_search :: string where
  "ex_search =
     ''https://www.indeed.ca/jobs?q=python+developer&l=Waterloo%2C+ON&radius=25&limit=50&filter=0''"

definition ex_soup :: "string \<Rightarrow> string \<Rightarrow> job_soup" where
  "ex_soup t k =
     \<lparr>jobTitle = Some t,
      company_span = Some ''  Acme '',
      location_span = Some ''Waterloo, ON'',
      jobCardShelf = Some [''Remote''],
      date_span = Some ''today'',
      save_job_link = Some (''<a class=\"sl resultLink save-job-link\" id=\"sj_'' @ k
                              @ ''\" href=\"#\">save job</a>'')\<rparr>"

text \<open>
  A search that announces 100 results, hence two pages, with the given fragments on
  the pages at offsets 0 and 50.
\<close>

definition ex_site :: "job_soup list \<Rightarrow> job_soup list \<Rightarrow> collaborators" where
  "ex_site page0 page1 =
     site [(ex_search,
            \<lparr>searchCountPages = Some [NavigableString ''Page 1 of 100 jobs''],
             organicJob = page0, jobDescriptionText = None\<rparr>),
           (ex_search @ ''&start=0'',
            \<lparr>searchCountPages = None, organicJob = page0, jobDescriptionText = None\<rparr>),
           (ex_search @ ''&start=50'',
            \<lparr>searchCountPages = None, organicJob = page1, jobDescriptionText = None\<rparr>)]"

text \<open>Fragments and sites of the concrete checks.\<close>

definition ex_dup :: collaborators where
  "ex_dup = ex_site [ex_soup ''Dev A'' ''abc123''] [ex_soup ''Dev A again'' ''abc123'']"

definition ex_no_title :: job_soup where
  "ex_no_title = (ex_soup ''Dev C'' ''c3'')\<lparr>jobTitle := None\<rparr>"

definition ex_four :: collaborators where
  "ex_four =
     ex_site [ex_soup ''Dev A'' ''abc123'', ex_soup ''Dev B'' ''b2'']
             [ex_no_title, ex_soup ''Dev D'' ''d4'']"

definition ex_bad_date :: job_soup where
  "ex_bad_date = (ex_soup ''Dev E'' ''e5'')\<lparr>date_span := Some ''last Tuesday-ish''\<rparr>"

definition ex_no_tags :: job_soup where
  "ex_no_tags = (ex_soup ''Dev F'' ''f6'')\<lparr>jobCardShelf := None\<rparr>"

definition ex_no_date :: job_soup where
  "ex_no_date = (ex_soup ''Dev G'' ''g7'')\<lparr>date_span := None\<rparr>"

definition ex_no_id :: job_soup where
  "ex_no_id = (ex_soup ''Dev H'' ''h8'')\<lparr>save_job_link := None\<rparr>"

definition ex_no_id_site :: collaborators where
  "ex_no_id_site = ex_site [ex_soup ''Dev A'' ''abc123'', ex_no_id] [ex_soup ''Dev D'' ''d4'']"

text \<open>
  A record with a description already filled in, and two sites for its address: on
  the first the page has no description element, on the second it has one.
\<close>

definition ex_job :: Job where
  "ex_job =
     \<lparr>title = ''Dev A'', company = ''Acme'', location = ''Waterloo, ON'',
      description = ''old text'', key_id = ''abc123'',
      url = ''http://www.indeed.ca/viewjob?jk=abc123'',
      job_locale = CANADA_ENGLISH, query = ''python+developer'', status = NEW,
      provider = ''indeed'', short_description = None,
      post_date = AbsoluteDate (Datetime 2020 6 1),
      raw = ex_soup ''Dev A'' ''abc123'', tags = [''Remote'']\<rparr>"

definition ex_job_page_absent :: collaborators where
  "ex_job_page_absent = site [(''http://www.indeed.ca/viewjob?jk=abc123'', empty_page)]"

definition ex_job_page_present :: collaborators where
  "ex_job_page_present =
     site [(''http://www.indeed.ca/viewjob?jk=abc123'',
            empty_page\<lparr>jobDescriptionText := Some ''  We build things. ''\<rparr>)]"

text \<open>First pages that announce 237 results, and a count beyond the range of doubles.\<close>

definition ex_count_page :: "string \<Rightarrow> page_soup" where
  "ex_count_page counted =
     \<lparr>searchCountPages = Some [NavigableString counted], organicJob = [],
      jobDescriptionText = None\<rparr>"

definition ex_page_237 :: page_soup where
  "ex_page_237 = ex_count_page ''  Page 1 of 237 jobs''"

definition ex_page_huge :: page_soup where
  "ex_page_huge = ex_count_page ''Page 1 of 14,073,748,835,532,801 jobs''"

section \<open>Properties\<close>

subsection \<open>Radius quantization\<close>

lemma convert_radius_cases:
  "convert_radius r =
     (if r < 5 then 0 else if r < 10 then 5 else if r < 15 then 10 else if r < 25 then 15
      else if r < 50 then 25 else if r < 100 then 50 else 100)"
  by (simp add: convert_radius_def)

lemma convert_radius_range: "convert_radius r \<in> {0, 5, 10, 15, 25, 50, 100}"
  by (simp add: convert_radius_cases)

lemma spec_bucket_nonneg:
  assumes "0 \<le> r"
  shows "spec_bucket r = Some (convert_radius r)"
  using assms by (simp add: spec_bucket_def spec_radius_intervals_def convert_radius_cases)

text \<open>
  C7: for every non-negative radius, \<open>convert_radius\<close> returns the bucket of the
  half-open interval of the specification's table that holds the radius
  (\<open>[0,5)\<rightarrow>0\<close>, \<open>[5,10)\<rightarrow>5\<close>, \<open>[10,15)\<rightarrow>10\<close>, \<open>[15,25)\<rightarrow>15\<close>, \<open>[25,50)\<rightarrow>25\<close>, \<open>[50,100)\<rightarrow>50\<close>,
  \<open>[100,\<infinity>)\<rightarrow>100\<close>), each interval of the table determines the result on all of its
  points, and \<open>convert_radius\<close> is idempotent on every integer.
\<close>

theorem convert_radius_buckets:
  "(0 \<le> r \<longrightarrow> spec_bucket r = Some (convert_radius r))
   \<and> (\<forall>iv \<in> set spec_radius_intervals. in_interval r iv \<longrightarrow> convert_radius r = snd (snd iv))
   \<and> convert_radius (convert_radius r) = convert_radius r"
proof (intro conjI)
  show "0 \<le> r \<longrightarrow> spec_bucket r = Some (convert_radius r)"
    by (simp add: spec_bucket_nonneg)
  show "\<forall>iv \<in> set spec_radius_intervals. in_interval r iv \<longrightarrow> convert_radius r = snd (snd iv)"
    by (simp add: spec_radius_intervals_def convert_radius_cases)
  show "convert_radius (convert_radius r) = convert_radius r"
    by (simp add: convert_radius_cases)
qed

theorem convert_radius_buckets_witness:
  "(0::int) \<le> 24 \<and> spec_bucket 24 = Some 15 \<and> convert_radius 24 = 15
   \<and> in_interval 24 (15, Some 25, 15) \<and> convert_radius (convert_radius 24) = 15"
  using convert_radius_buckets [of 24]
  by (simp add: spec_radius_intervals_def convert_radius_cases)

text \<open>
  C10: \<open>convert_radius\<close> is total on the integers, and every negative radius falls
  into the first branch \<open>radius < 5\<close>: the result is the bucket 0, not an error.
\<close>

theorem convert_radius_negative:
  "r < 0 \<Longrightarrow> convert_radius r = 0"
  by (simp add: convert_radius_def)

theorem convert_radius_negative_witness:
  "(-7::int) < 0 \<and> convert_radius (-7) = 0"
  using convert_radius_negative [of "-7"] by simp

subsection \<open>The loop of \<open>scrape\<close>\<close>

lemma bind_run_Inr [simp]: "bind_run (Inr x, ev) f = (fst (f x), ev @ snd (f x))"
  by (simp add: bind_run_def split: prod.splits)

lemma bind_run_Inl [simp]: "bind_run (Inl e, ev) f = (Inl e, ev)"
  by (simp add: bind_run_def)

lemma fst_bind_run_Inr:
  "fst (bind_run m f) = Inr y \<longleftrightarrow> (\<exists>x. fst m = Inr x \<and> fst (f x) = Inr y)"
  by (cases m; cases "fst m") (auto simp: bind_run_def split: prod.splits)

lemma find_text_error: "find_text found = Inl e \<Longrightarrow> e = AttributeError"
  by (auto simp: find_text_def split: option.splits)

lemma get_tags_error: "get_tags s = Inl e \<Longrightarrow> e = AttributeError"
  by (auto simp: get_tags_def split: option.splits)

lemma get_date_error: "get_date s = Inl e \<Longrightarrow> e = AttributeError"
  by (auto simp: get_date_def dest: find_text_error)

lemma get_id_error: "get_id s = Inl e \<Longrightarrow> e = IndexError"
  by (auto simp: get_id_def first_item_def split: list.splits)

lemma required_stage_key:
  "required_stage c self s = Inr (t, co, lo, k, u) \<Longrightarrow>
     get_title s = Inr t \<and> get_company s = Inr co \<and> get_location s = Inr lo
     \<and> get_id s = Inr k \<and> u = get_link c self k"
  by (auto simp: required_stage_def and_then_def split: sum.splits)

lemma scrape_job_soup_dropped:
  "required_stage c self s = Inl AttributeError \<Longrightarrow>
     scrape_job_soup c self s D
       = (Inr D, [Logged ERROR ''Unable to scrape minimum-required job info!''])"
  by (simp add: scrape_job_soup_def)

lemma scrape_job_soup_raised:
  "required_stage c self s = Inl e \<Longrightarrow> e \<noteq> AttributeError \<Longrightarrow>
     scrape_job_soup c self s D = (Inl e, [])"
  by (simp add: scrape_job_soup_def)

lemma scrape_job_soup_extracted:
  assumes "required_stage c self s = Inr (t, co, lo, k, u)"
    and "extracted_job c self s = Some job"
  shows "scrape_job_soup c self s D
           = (case fix_date c job of
                (Inl e, ev) \<Rightarrow> (Inl e, optional_warnings s k @ ev)
              | (Inr job', ev) \<Rightarrow> (Inr (D(key_id job' \<mapsto> job')), optional_warnings s k @ ev))"
proof -
  have tags: "try_or_warn (get_tags s) [] msg
                = (Inr (case get_tags s of Inl e \<Rightarrow> [] | Inr t \<Rightarrow> t),
                   case get_tags s of Inl e \<Rightarrow> [Logged WARNING msg] | Inr t \<Rightarrow> [])" for msg
    by (auto simp: try_or_warn_def split: sum.splits dest: get_tags_error)
  have date: "try_or_warn (map_sum id Some (get_date s)) None msg
                = (Inr (case get_date s of Inl e \<Rightarrow> None | Inr d \<Rightarrow> Some d),
                   case get_date s of Inl e \<Rightarrow> [Logged WARNING msg] | Inr d \<Rightarrow> [])" for msg
    by (cases "get_date s") (auto simp: try_or_warn_def dest: get_date_error)
  from assms have job: "job = new_job self s (t, co, lo, k, u)
                               (case get_tags s of Inl e \<Rightarrow> [] | Inr t \<Rightarrow> t)
                               (case get_date s of Inl e \<Rightarrow> None | Inr d \<Rightarrow> Some d)"
    by (simp add: extracted_job_def)
  show ?thesis
    unfolding scrape_job_soup_def assms(1) tags date job
    by (cases "fix_date c (new_job self s (t, co, lo, k, u)
                               (case get_tags s of Inl e \<Rightarrow> [] | Inr t \<Rightarrow> t)
                               (case get_date s of Inl e \<Rightarrow> None | Inr d \<Rightarrow> Some d))";
        cases "fst (fix_date c (new_job self s (t, co, lo, k, u)
                               (case get_tags s of Inl e \<Rightarrow> [] | Inr t \<Rightarrow> t)
                               (case get_date s of Inl e \<Rightarrow> None | Inr d \<Rightarrow> Some d)))")
       (auto simp: optional_warnings_def)
qed


lemma fix_date_cases:
  "fix_date c job =
     (case relative_date c (post_date job) of
        Inr d \<Rightarrow> (Inr (job\<lparr>post_date := AbsoluteDate d\<rparr>), [])
      | Inl e \<Rightarrow>
          if e = ValueError
          then (Inr (job\<lparr>post_date := AbsoluteDate epoch\<rparr>),
                [Logged ERROR (''Unknown date for job '' @ key_id job
                                 @ '', setting to epoch date.'')])
          else (Inl e, []))"
  by (simp add: fix_date_def set_post_date_from_relative_date_def and_then_def split: sum.splits)

lemma fix_date_fields:
  assumes "fst (fix_date c job) = Inr job'"
  shows "\<exists>d. job' = job\<lparr>post_date := AbsoluteDate d\<rparr>"
  using assms by (auto simp: fix_date_cases split: sum.splits if_splits)

lemma fix_date_key:
  "fix_date c job = (Inr job', ev) \<Longrightarrow> key_id job' = key_id job"
  using fix_date_fields [of c job job'] by auto

lemma extracted_job_Some:
  "extracted_job c self s = Some job \<longleftrightarrow>
     (\<exists>req. required_stage c self s = Inr req \<and>
        job = new_job self s req (case get_tags s of Inl e \<Rightarrow> [] | Inr t \<Rightarrow> t)
                (case get_date s of Inl e \<Rightarrow> None | Inr d \<Rightarrow> Some d))"
  by (auto simp: extracted_job_def split: sum.splits)

lemma extracted_job_key:
  "extracted_job c self s = Some job \<Longrightarrow> \<exists>t co lo. required_stage c self s = Inr (t, co, lo, key_id job, url job)"
  by (auto simp: extracted_job_Some new_job_def)

lemma scrape_job_soup_ok:
  assumes "fst (scrape_job_soup c self s D) = Inr D'"
  shows "(extracted_job c self s = None \<and> D' = D)
         \<or> (\<exists>job job'. extracted_job c self s = Some job \<and> fst (fix_date c job) = Inr job'
               \<and> D' = D(key_id job \<mapsto> job'))"
proof (cases "required_stage c self s")
  case (Inl e)
  with assms show ?thesis
    by (auto simp: scrape_job_soup_def extracted_job_def split: if_splits)
next
  case (Inr req)
  obtain t co lo k u where req: "req = (t, co, lo, k, u)"
    by (cases req) auto
  obtain job where job: "extracted_job c self s = Some job"
    using Inr by (auto simp: extracted_job_def)
  have k: "key_id job = k"
    using job Inr req by (auto simp: extracted_job_Some new_job_def)
  from assms scrape_job_soup_extracted [OF Inr [unfolded req] job, of D]
  obtain job' where "fst (fix_date c job) = Inr job'" "D' = D(key_id job' \<mapsto> job')"
    by (cases "fix_date c job"; cases "fst (fix_date c job)") auto
  moreover from this fix_date_fields have "key_id job' = key_id job"
    by fastforce
  ultimately show ?thesis using job by auto
qed

lemma scrape_job_soup_add:
  "scrape_job_soup c self s D
     = (case scrape_job_soup c self s Map.empty of
          (Inl e, ev) \<Rightarrow> (Inl e, ev)
        | (Inr d, ev) \<Rightarrow> (Inr (D ++ d), ev))"
proof (cases "required_stage c self s")
  case (Inl e)
  then show ?thesis
    by (simp add: scrape_job_soup_def)
next
  case (Inr req)
  obtain t co lo k u where req: "req = (t, co, lo, k, u)"
    by (cases req) auto
  obtain job where job: "extracted_job c self s = Some job"
    using Inr by (auto simp: extracted_job_def)
  show ?thesis
    unfolding scrape_job_soup_extracted [OF Inr [unfolded req] job]
    by (cases "fix_date c job"; cases "fst (fix_date c job)") auto
qed

lemma yields_add:
  "fst (scrape_job_soup c self s D) = Inr D' \<Longrightarrow> D' = D ++ yields c self s"
  using scrape_job_soup_add [of c self s D]
  by (cases "scrape_job_soup c self s Map.empty"; cases "fst (scrape_job_soup c self s Map.empty)")
     (auto simp: yields_def)

lemma last_record_Nil [simp]: "last_record c self [] k = None"
  by (simp add: last_record_def)

lemma last_record_None:
  "last_record c self frags k = None \<longleftrightarrow> filter (\<lambda>s. yields c self s k \<noteq> None) frags = []"
proof (cases "filter (\<lambda>s. yields c self s k \<noteq> None) frags")
  case Nil
  then show ?thesis by (simp add: last_record_def)
next
  case (Cons s ss)
  then have "last (s # ss) \<in> set (filter (\<lambda>s. yields c self s k \<noteq> None) frags)"
    by (metis last_in_set list.distinct(1))
  then have "yields c self (last (s # ss)) k \<noteq> None"
    by simp
  with Cons show ?thesis by (simp add: last_record_def)
qed

lemma last_record_Cons:
  "last_record c self (s # rest) k
     = (case last_record c self rest k of None \<Rightarrow> yields c self s k | Some j \<Rightarrow> Some j)"
proof (cases "last_record c self rest k")
  case None
  then have "filter (\<lambda>s. yields c self s k \<noteq> None) rest = []"
    by (simp add: last_record_None)
  then show ?thesis
    using None by (cases "yields c self s k") (auto simp: last_record_def)
next
  case (Some j)
  then have ne: "filter (\<lambda>s. yields c self s k \<noteq> None) rest \<noteq> []"
    using last_record_None [of c self rest k] by auto
  then obtain x xs where xs: "filter (\<lambda>s. yields c self s k \<noteq> None) rest = x # xs"
    by (cases "filter (\<lambda>s. yields c self s k \<noteq> None) rest") auto
  show ?thesis
    using Some xs by (auto simp: last_record_def)
qed

lemma scrape_job_soups_lookup:
  "fst (scrape_job_soups c self frags D) = Inr d \<Longrightarrow>
     d k = (case last_record c self frags k of None \<Rightarrow> D k | Some j \<Rightarrow> Some j)"
proof (induction frags arbitrary: D)
  case Nil
  then show ?case by simp
next
  case (Cons s rest)
  from Cons.prems obtain D1 where
    D1: "fst (scrape_job_soup c self s D) = Inr D1"
    and rest: "fst (scrape_job_soups c self rest D1) = Inr d"
    by (auto simp: fst_bind_run_Inr)
  have "D1 = D ++ yields c self s"
    using D1 by (rule yields_add)
  then have "D1 k = (case yields c self s k of None \<Rightarrow> D k | Some j \<Rightarrow> Some j)"
    by (simp add: map_add_def)
  with Cons.IH [OF rest] show ?case
    by (simp add: last_record_Cons split: option.splits)
qed

lemma scrape_job_soups_total:
  "(\<forall>s \<in> set frags. \<exists>d. fst (scrape_job_soup c self s Map.empty) = Inr d) \<Longrightarrow>
     \<exists>d. fst (scrape_job_soups c self frags D) = Inr d"
proof (induction frags arbitrary: D)
  case Nil
  then show ?case by simp
next
  case (Cons s rest)
  then obtain d0 where "fst (scrape_job_soup c self s Map.empty) = Inr d0"
    by auto
  then have "fst (scrape_job_soup c self s D) = Inr (D ++ d0)"
    using scrape_job_soup_add [of c self s D]
    by (cases "scrape_job_soup c self s Map.empty") auto
  with Cons show ?case
    by (auto simp: fst_bind_run_Inr)
qed

lemma scrape_result:
  "fst (scrape c self sched) = Inr d \<longleftrightarrow>
     (\<exists>frags. fst (collect_job_soups c self sched) = Inr frags
        \<and> fst (scrape_job_soups c self frags Map.empty) = Inr d)"
  by (simp add: scrape_def fst_bind_run_Inr)


lemma yields_Some:
  assumes "yields c self s k = Some j"
  shows "\<exists>job. extracted_job c self s = Some job \<and> fst (fix_date c job) = Inr j \<and> k = key_id job"
proof -
  from assms obtain d0 where d0: "fst (scrape_job_soup c self s Map.empty) = Inr d0" "d0 k = Some j"
    by (auto simp: yields_def split: sum.splits)
  from scrape_job_soup_ok [OF d0(1)] d0(2) show ?thesis
    by (auto split: if_splits)
qed

lemma yields_update:
  assumes "yields c self s k = Some j"
  shows "scrape_job_soup c self s D = (Inr (D(k \<mapsto> j)), snd (scrape_job_soup c self s Map.empty))"
proof -
  from assms obtain d0 where d0: "fst (scrape_job_soup c self s Map.empty) = Inr d0" "d0 k = Some j"
    by (auto simp: yields_def split: sum.splits)
  from scrape_job_soup_ok [OF d0(1)] d0(2) have "d0 = Map.empty(k \<mapsto> j)"
    by (auto split: if_splits)
  with d0(1) have "scrape_job_soup c self s Map.empty
                     = (Inr (Map.empty(k \<mapsto> j)), snd (scrape_job_soup c self s Map.empty))"
    by (cases "scrape_job_soup c self s Map.empty") auto
  then show ?thesis
    using scrape_job_soup_add [of c self s D]
    by (cases "scrape_job_soup c self s Map.empty") auto
qed

lemma last_record_Some:
  "last_record c self frags k = Some j \<Longrightarrow> \<exists>s \<in> set frags. yields c self s k = Some j"
proof (induction frags)
  case Nil
  then show ?case by simp
next
  case (Cons s rest)
  then show ?case
    by (cases "last_record c self rest k") (auto simp: last_record_Cons)
qed

lemma last_record_append:
  "last_record c self (before @ after) k
     = (case last_record c self after k of
          None \<Rightarrow> last_record c self before k
        | Some j \<Rightarrow> Some j)"
  by (induction before) (auto simp: last_record_Cons split: option.splits)

lemma fst_Inr_ex: "(case fst r of Inl e \<Rightarrow> False | Inr x \<Rightarrow> True) \<Longrightarrow> \<exists>x. fst r = Inr x"
  by (cases "fst r") auto

lemma scrape_lookup:
  assumes "fst (scrape c self sched) = Inr d"
    and "fst (collect_job_soups c self sched) = Inr frags"
  shows "d k = last_record c self frags k"
proof -
  from assms have "fst (scrape_job_soups c self frags Map.empty) = Inr d"
    by (auto simp: scrape_result)
  from scrape_job_soups_lookup [OF this, of k] show ?thesis
    by (simp split: option.splits)
qed

text \<open>
  C1: deduplication is last-write-wins, with no collision signal. When \<open>scrape\<close>
  returns a dictionary, each key is mapped to the record derived from the last
  fragment, in the order of processing, that yields a record under that key (and to
  nothing when no fragment does). A fragment that yields a record under a key
  replaces whatever the dictionary held there, returns normally and leaves the same
  trace as on the empty dictionary; so fragments that are each processed without an
  exception are processed without an exception together.
\<close>

theorem dedup_last_write_wins:
  "(fst (scrape c self sched) = Inr d \<longrightarrow>
      (\<exists>frags. fst (collect_job_soups c self sched) = Inr frags
         \<and> (\<forall>k. d k = last_record c self frags k)))
   \<and> (yields c self s k = Some j \<longrightarrow>
        scrape_job_soup c self s D
          = (Inr (D(k \<mapsto> j)), snd (scrape_job_soup c self s Map.empty)))
   \<and> ((\<forall>s' \<in> set frags'. \<exists>d0. fst (scrape_job_soup c self s' Map.empty) = Inr d0) \<longrightarrow>
        (\<exists>d'. fst (scrape_job_soups c self frags' Map.empty) = Inr d'))"
proof (intro conjI impI)
  assume "fst (scrape c self sched) = Inr d"
  then obtain frags where frags: "fst (collect_job_soups c self sched) = Inr frags"
    and d: "fst (scrape_job_soups c self frags Map.empty) = Inr d"
    by (auto simp: scrape_result)
  have "d k = last_record c self frags k" for k
    using scrape_job_soups_lookup [OF d, of k] by (simp split: option.splits)
  with frags show "\<exists>frags. fst (collect_job_soups c self sched) = Inr frags
         \<and> (\<forall>k. d k = last_record c self frags k)"
    by blast
next
  assume "yields c self s k = Some j"
  then show "scrape_job_soup c self s D
          = (Inr (D(k \<mapsto> j)), snd (scrape_job_soup c self s Map.empty))"
    by (rule yields_update)
next
  assume "\<forall>s' \<in> set frags'. \<exists>d0. fst (scrape_job_soup c self s' Map.empty) = Inr d0"
  then show "\<exists>d'. fst (scrape_job_soups c self frags' Map.empty) = Inr d'"
    by (rule scrape_job_soups_total)
qed

theorem dedup_last_write_wins_witness:
  "\<exists>d j. fst (scrape ex_dup ex_scraper []) = Inr d
     \<and> d ''abc123'' = Some j \<and> title j = ''Dev A again'' \<and> d ''b2'' = None
     \<and> yields ex_dup ex_scraper (ex_soup ''Dev A again'' ''abc123'') ''abc123'' = Some j
     \<and> fst (scrape_job_soup ex_dup ex_scraper (ex_soup ''Dev A again'' ''abc123'')
              (yields ex_dup ex_scraper (ex_soup ''Dev A'' ''abc123'')))
         = Inr ((yields ex_dup ex_scraper (ex_soup ''Dev A'' ''abc123''))(''abc123'' \<mapsto> j))"
proof -
  have "case fst (scrape ex_dup ex_scraper []) of Inl e \<Rightarrow> False | Inr x \<Rightarrow> True"
    by code_simp
  then obtain d where d: "fst (scrape ex_dup ex_scraper []) = Inr d"
    by (auto dest: fst_Inr_ex)
  have frags: "fst (collect_job_soups ex_dup ex_scraper [])
                 = Inr [ex_soup ''Dev A'' ''abc123'', ex_soup ''Dev A again'' ''abc123'']"
    by code_simp
  have "case yields ex_dup ex_scraper (ex_soup ''Dev A again'' ''abc123'') ''abc123'' of
          None \<Rightarrow> False | Some j \<Rightarrow> title j = ''Dev A again''"
    by code_simp
  then obtain j where j: "yields ex_dup ex_scraper (ex_soup ''Dev A again'' ''abc123'') ''abc123'' = Some j"
    "title j = ''Dev A again''"
    by (auto split: option.splits)
  have last: "last_record ex_dup ex_scraper
                [ex_soup ''Dev A'' ''abc123'', ex_soup ''Dev A again'' ''abc123''] ''abc123''
              = yields ex_dup ex_scraper (ex_soup ''Dev A again'' ''abc123'') ''abc123''"
    "last_record ex_dup ex_scraper
                [ex_soup ''Dev A'' ''abc123'', ex_soup ''Dev A again'' ''abc123''] ''b2'' = None"
    by code_simp+
  note inst = dedup_last_write_wins [of ex_dup ex_scraper "[]" d
      "ex_soup ''Dev A again'' ''abc123''" "''abc123''" j
      "yields ex_dup ex_scraper (ex_soup ''Dev A'' ''abc123'')" "[]"]
  from inst d frags last j show ?thesis
    by auto
qed

text \<open>
  C8: every record of the dictionary that \<open>scrape\<close> returns, for a scraper made by
  \<open>__init__\<close>, has \<open>status = NEW\<close>, the empty \<open>description\<close>, the search keywords joined
  with \<open>+\<close> as \<open>query\<close>, the scraper's locale, and the provider \<open>indeed\<close> (a constant
  of the Indeed scraper).
\<close>

theorem record_assembly:
  assumes "fst (scrape c (init loc terms) sched) = Inr d" and "d k = Some j"
  shows "status j = NEW \<and> description j = [] \<and> query j = join ''+'' (search_keywords terms)
         \<and> provider j = ''indeed'' \<and> job_locale j = loc \<and> key_id j = k"
proof -
  from assms(1) obtain frags where
    d: "fst (scrape_job_soups c (init loc terms) frags Map.empty) = Inr d"
    by (auto simp: scrape_result)
  from scrape_job_soups_lookup [OF d, of k] assms(2)
  have "last_record c (init loc terms) frags k = Some j"
    by (simp split: option.splits)
  then obtain s where "yields c (init loc terms) s k = Some j"
    by (auto dest: last_record_Some)
  then obtain job where job: "extracted_job c (init loc terms) s = Some job"
    and j: "fst (fix_date c job) = Inr j" and k: "k = key_id job"
    by (auto dest: yields_Some)
  from j obtain dt where "j = job\<lparr>post_date := AbsoluteDate dt\<rparr>"
    by (auto dest: fix_date_fields)
  with job k show ?thesis
    by (auto simp: extracted_job_Some new_job_def init_def)
qed

theorem record_assembly_witness:
  "\<exists>d j. fst (scrape ex_four (init CANADA_ENGLISH ex_terms) [1]) = Inr d \<and> d ''d4'' = Some j
     \<and> status j = NEW \<and> description j = [] \<and> query j = ''python+developer''
     \<and> provider j = ''indeed'' \<and> job_locale j = CANADA_ENGLISH"
proof -
  have "case fst (scrape ex_four ex_scraper [1]) of Inl e \<Rightarrow> False | Inr x \<Rightarrow> True"
    by code_simp
  then obtain d where d: "fst (scrape ex_four ex_scraper [1]) = Inr d"
    by (auto dest: fst_Inr_ex)
  have frags: "fst (collect_job_soups ex_four ex_scraper [1])
                 = Inr [ex_no_title, ex_soup ''Dev D'' ''d4'',
                        ex_soup ''Dev A'' ''abc123'', ex_soup ''Dev B'' ''b2'']"
    by code_simp
  have "last_record ex_four ex_scraper
          [ex_no_title, ex_soup ''Dev D'' ''d4'',
           ex_soup ''Dev A'' ''abc123'', ex_soup ''Dev B'' ''b2''] ''d4'' \<noteq> None"
    by code_simp
  then obtain j where j: "d ''d4'' = Some j"
    using scrape_lookup [OF d frags, of "''d4''"] by auto
  from record_assembly [of ex_four CANADA_ENGLISH ex_terms "[1]" d "''d4''" j] d j
  show ?thesis
    by (auto simp: ex_scraper_def ex_terms_def)
qed

text \<open>
  C5: when the required stage of a fragment succeeded and making the date absolute
  raises \<open>ValueError\<close>, the loop body keeps the record, sets its \<open>post_date\<close> to
  1970-01-01, logs at error level and stores the record under its \<open>key_id\<close>; the
  dictionary of the whole loop then has a record under that key, and it is this
  record unless a later fragment yields one under the same key.
\<close>

theorem date_failure_keeps_record:
  assumes "extracted_job c self s = Some job"
    and "set_post_date_from_relative_date c job = Inl ValueError"
  shows "scrape_job_soup c self s D
           = (Inr (D(key_id job \<mapsto> job\<lparr>post_date := AbsoluteDate epoch\<rparr>)),
              optional_warnings s (key_id job)
                @ [Logged ERROR (''Unknown date for job '' @ key_id job
                                   @ '', setting to epoch date.'')])
         \<and> (fst (scrape_job_soups c self (before @ s # after) Map.empty) = Inr d \<longrightarrow>
              d (key_id job) \<noteq> None
              \<and> (last_record c self after (key_id job) = None \<longrightarrow>
                   d (key_id job) = Some (job\<lparr>post_date := AbsoluteDate epoch\<rparr>)))"
proof -
  from assms(1) obtain t co lo where
    req: "required_stage c self s = Inr (t, co, lo, key_id job, url job)"
    by (auto dest: extracted_job_key)
  have fixed: "fix_date c job
               = (Inr (job\<lparr>post_date := AbsoluteDate epoch\<rparr>),
                  [Logged ERROR (''Unknown date for job '' @ key_id job
                                   @ '', setting to epoch date.'')])"
    using assms(2) by (simp add: fix_date_def)
  have body: "scrape_job_soup c self s D
           = (Inr (D(key_id job \<mapsto> job\<lparr>post_date := AbsoluteDate epoch\<rparr>)),
              optional_warnings s (key_id job)
                @ [Logged ERROR (''Unknown date for job '' @ key_id job
                                   @ '', setting to epoch date.'')])" for D
    by (simp add: scrape_job_soup_extracted [OF req assms(1)] fixed)
  have y: "yields c self s (key_id job) = Some (job\<lparr>post_date := AbsoluteDate epoch\<rparr>)"
    by (simp add: yields_def body)
  have "d (key_id job) \<noteq> None
        \<and> (last_record c self after (key_id job) = None \<longrightarrow>
             d (key_id job) = Some (job\<lparr>post_date := AbsoluteDate epoch\<rparr>))"
    if "fst (scrape_job_soups c self (before @ s # after) Map.empty) = Inr d"
    using scrape_job_soups_lookup [OF that, of "key_id job"] y
    by (auto simp: last_record_append last_record_Cons split: option.splits)
  with body show ?thesis by blast
qed

theorem date_failure_keeps_record_witness:
  "\<exists>job d. extracted_job (site []) ex_scraper ex_bad_date = Some job
     \<and> set_post_date_from_relative_date (site []) job = Inl ValueError
     \<and> key_id job = ''e5''
     \<and> scrape_job_soup (site []) ex_scraper ex_bad_date Map.empty
         = (Inr [''e5'' \<mapsto> job\<lparr>post_date := AbsoluteDate (Datetime 1970 1 1)\<rparr>],
            [Logged ERROR ''Unknown date for job e5, setting to epoch date.''])
     \<and> fst (scrape_job_soups (site []) ex_scraper
              ([ex_soup ''Dev A'' ''abc123''] @ ex_bad_date # [ex_soup ''Dev B'' ''b2''])
              Map.empty) = Inr d
     \<and> d ''e5'' = Some (job\<lparr>post_date := AbsoluteDate (Datetime 1970 1 1)\<rparr>)"
proof -
  have "case extracted_job (site []) ex_scraper ex_bad_date of
          None \<Rightarrow> False
        | Some job \<Rightarrow> set_post_date_from_relative_date (site []) job = Inl ValueError
                       \<and> key_id job = ''e5''"
    by code_simp
  then obtain job where job: "extracted_job (site []) ex_scraper ex_bad_date = Some job"
    "set_post_date_from_relative_date (site []) job = Inl ValueError" "key_id job = ''e5''"
    by (auto split: option.splits)
  have "case fst (scrape_job_soups (site []) ex_scraper
              ([ex_soup ''Dev A'' ''abc123''] @ ex_bad_date # [ex_soup ''Dev B'' ''b2''])
              Map.empty) of Inl e \<Rightarrow> False | Inr x \<Rightarrow> True"
    by code_simp
  then obtain d where d: "fst (scrape_job_soups (site []) ex_scraper
              ([ex_soup ''Dev A'' ''abc123''] @ ex_bad_date # [ex_soup ''Dev B'' ''b2''])
              Map.empty) = Inr d"
    by (auto dest: fst_Inr_ex)
  have w: "optional_warnings ex_bad_date ''e5'' = []"
    by code_simp
  have l: "last_record (site []) ex_scraper [ex_soup ''Dev B'' ''b2''] ''e5'' = None"
    by code_simp
  from date_failure_keeps_record [OF job(1,2), of Map.empty "[ex_soup ''Dev A'' ''abc123'']"
      "[ex_soup ''Dev B'' ''b2'']" d] job d w l
  show ?thesis
    by (auto simp: epoch_def)
qed

text \<open>
  C6: when the required stage of a fragment succeeded, the tags and the date text
  are extracted independently: the record handed to date normalization has the
  extracted tags, or the empty list when their extraction raises, and the extracted
  date text, or no date when its extraction raises, each whatever the other does
  (with one warning per failure). Neither failure discards the record: the loop
  body goes on to date normalization, and stores the record, with these tags, when
  normalization returns.
\<close>

theorem optional_stage_isolated:
  assumes "required_stage c self s = Inr (t, co, lo, k, u)"
  shows "\<exists>job. extracted_job c self s = Some job
           \<and> tags job = (case get_tags s of Inl e \<Rightarrow> [] | Inr ts \<Rightarrow> ts)
           \<and> post_date job = (case get_date s of Inl e \<Rightarrow> NoDate | Inr dt \<Rightarrow> RelativeDate dt)
           \<and> scrape_job_soup c self s D
               = (case fix_date c job of
                    (Inl e, ev) \<Rightarrow> (Inl e, optional_warnings s k @ ev)
                  | (Inr job', ev) \<Rightarrow> (Inr (D(k \<mapsto> job')), optional_warnings s k @ ev))
           \<and> (\<forall>job'. fst (fix_date c job) = Inr job' \<longrightarrow>
                 tags job' = tags job \<and> fst (scrape_job_soup c self s D) = Inr (D(k \<mapsto> job')))"
proof -
  obtain job where job: "extracted_job c self s = Some job"
    using assms by (auto simp: extracted_job_def)
  have k: "key_id job = k"
    using job assms by (auto simp: extracted_job_Some new_job_def)
  have body: "scrape_job_soup c self s D
               = (case fix_date c job of
                    (Inl e, ev) \<Rightarrow> (Inl e, optional_warnings s k @ ev)
                  | (Inr job', ev) \<Rightarrow> (Inr (D(k \<mapsto> job')), optional_warnings s k @ ev))"
    unfolding scrape_job_soup_extracted [OF assms job]
    by (cases "fix_date c job"; cases "fst (fix_date c job)")
       (use k in \<open>auto dest: fix_date_key\<close>)
  have emitted: "tags job' = tags job \<and> fst (scrape_job_soup c self s D) = Inr (D(k \<mapsto> job'))"
    if "fst (fix_date c job) = Inr job'" for job'
    using that fix_date_fields [OF that] unfolding body
    by (cases "fix_date c job") auto
  have "tags job = (case get_tags s of Inl e \<Rightarrow> [] | Inr ts \<Rightarrow> ts)"
    and "post_date job = (case get_date s of Inl e \<Rightarrow> NoDate | Inr dt \<Rightarrow> RelativeDate dt)"
    using job assms by (auto simp: extracted_job_Some new_job_def split: sum.splits)
  with job body emitted show ?thesis by blast
qed

theorem optional_stage_isolated_witness:
  "required_stage (site []) ex_scraper ex_no_tags
     = Inr (''Dev F'', ''Acme'', ''Waterloo, ON'', ''f6'', ''http://www.indeed.ca/viewjob?jk=f6'')
   \<and> (\<exists>job. extracted_job (site []) ex_scraper ex_no_tags = Some job
         \<and> tags job = [] \<and> post_date job = RelativeDate ''today''
         \<and> scrape_job_soup (site []) ex_scraper ex_no_tags Map.empty
             = (Inr [''f6'' \<mapsto> job\<lparr>post_date := AbsoluteDate (Datetime 2020 6 1)\<rparr>],
                [Logged WARNING ''Unable to scrape job tags for f6'']))"
proof -
  have req: "required_stage (site []) ex_scraper ex_no_tags
     = Inr (''Dev F'', ''Acme'', ''Waterloo, ON'', ''f6'', ''http://www.indeed.ca/viewjob?jk=f6'')"
    by code_simp
  have t: "get_tags ex_no_tags = Inl AttributeError" and dt: "get_date ex_no_tags = Inr ''today''"
    by code_simp+
  have w: "optional_warnings ex_no_tags ''f6'' = [Logged WARNING ''Unable to scrape job tags for f6'']"
    by code_simp
  from optional_stage_isolated [OF req, of Map.empty] obtain job where
    job: "extracted_job (site []) ex_scraper ex_no_tags = Some job"
      "tags job = (case get_tags ex_no_tags of Inl e \<Rightarrow> [] | Inr ts \<Rightarrow> ts)"
      "post_date job = (case get_date ex_no_tags of Inl e \<Rightarrow> NoDate | Inr dt \<Rightarrow> RelativeDate dt)"
      "scrape_job_soup (site []) ex_scraper ex_no_tags Map.empty
         = (case fix_date (site []) job of
              (Inl e, ev) \<Rightarrow> (Inl e, optional_warnings ex_no_tags ''f6'' @ ev)
            | (Inr job', ev) \<Rightarrow> (Inr [''f6'' \<mapsto> job'], optional_warnings ex_no_tags ''f6'' @ ev))"
    by blast
  have "fix_date (site []) job = (Inr (job\<lparr>post_date := AbsoluteDate (Datetime 2020 6 1)\<rparr>), [])"
    using job(3) by (simp add: fix_date_cases dt site_def)
  with req job w t dt show ?thesis
    by auto
qed

subsection \<open>The fetch phase\<close>

lemma requests_append [simp]: "requests (ev @ ev') = requests ev @ requests ev'"
  by (induction ev rule: requests.induct) auto

lemma search_page_requests:
  "requests (snd (search_page_for_job_soups c self search page shared)) = [page_url self search page]"
  by (simp add: search_page_for_job_soups_def Let_def split: sum.splits)

lemma pool_choice_less: "n mod min max_workers (length (a # args)) < length (a # args)"
proof -
  have "0 < min max_workers (length (a # args))"
    by (simp add: max_workers_def)
  then have "n mod min max_workers (length (a # args)) < min max_workers (length (a # args))"
    by (rule mod_less_divisor)
  then show ?thesis by simp
qed

lemma mset_without_nth:
  assumes "i < length xs"
  shows "mset (take i xs @ drop (Suc i) xs) + {#xs ! i#} = mset xs"
proof -
  have "mset xs = mset (take i xs @ xs ! i # drop (Suc i) xs)"
    using id_take_nth_drop [OF assms] by simp
  then show ?thesis by simp
qed

lemma run_pool_requests:
  assumes "\<And>a shared. requests (snd (task a shared)) = [f a]"
  shows "mset (requests (snd (run_pool sched task args shared))) = mset (map f args)"
  using assms
proof (induction sched task args shared rule: run_pool.induct)
  case (1 sched task shared)
  then show ?case by simp
next
  case (2 task a args shared)
  obtain shared' ev where t: "task a shared = (shared', ev)"
    by (cases "task a shared") auto
  have ev: "requests ev = [f a]"
    using "2.prems" [of a shared] t by simp
  have "mset (requests (snd (run_pool [] task args shared'))) = mset (map f args)"
    using "2.IH" [OF t [symmetric] "2.prems"] .
  with ev t show ?case
    by (auto split: prod.splits)
next
  case (3 n sched task a args shared)
  let ?i = "n mod min max_workers (length (a # args))"
  let ?rest = "take ?i (a # args) @ drop (Suc ?i) (a # args)"
  obtain shared' ev where t: "task ((a # args) ! ?i) shared = (shared', ev)"
    by (cases "task ((a # args) ! ?i) shared") auto
  have ev: "requests ev = [f ((a # args) ! ?i)]"
    using "3.prems" [of "(a # args) ! ?i" shared] t by simp
  have IH: "mset (requests (snd (run_pool sched task ?rest shared'))) = mset (map f ?rest)"
    using "3.IH" [OF refl t [symmetric] "3.prems"] .
  have "image_mset f (mset ?rest + {#(a # args) ! ?i#}) = image_mset f (mset (a # args))"
    by (simp only: mset_without_nth [OF pool_choice_less])
  then have "mset (map f ?rest) + {#f ((a # args) ! ?i)#} = mset (map f (a # args))"
    by (simp only: mset_map image_mset_union image_mset_single)
  with IH ev t show ?case
    by (auto simp: Let_def split: prod.splits)
qed

lemma digits_of_nat_nonempty: "digits_of_nat n \<noteq> []"
  by (subst digits_of_nat.simps) simp

lemma digit_char_inj: "a < 10 \<Longrightarrow> b < 10 \<Longrightarrow> char_of (48 + a) = (char_of (48 + b) :: char) \<Longrightarrow> a = (b::nat)"
proof -
  assume a: "a < 10" and b: "b < 10" and eq: "char_of (48 + a) = (char_of (48 + b) :: char)"
  from eq have "(of_char (char_of (48 + a) :: char) :: nat) = of_char (char_of (48 + b) :: char)"
    by simp
  then have "(48 + a) mod 256 = (48 + b) mod 256"
    by simp
  with a b show ?thesis by simp
qed

lemma digits_of_nat_inj: "digits_of_nat a = digits_of_nat b \<Longrightarrow> a = b"
proof (induction a arbitrary: b rule: digits_of_nat.induct)
  case (1 a)
  show ?case
  proof (cases "a < 10")
    case True
    then have da: "digits_of_nat a = [char_of (48 + a)]"
      by (subst digits_of_nat.simps) simp
    show ?thesis
    proof (cases "b < 10")
      case True
      then have "digits_of_nat b = [char_of (48 + b)]"
        by (subst digits_of_nat.simps) simp
      with da "1.prems" \<open>a < 10\<close> True show ?thesis
        by (auto dest: digit_char_inj)
    next
      case False
      then have "digits_of_nat b = digits_of_nat (b div 10) @ [char_of (48 + b mod 10)]"
        by (subst digits_of_nat.simps) simp
      with da "1.prems" digits_of_nat_nonempty [of "b div 10"] show ?thesis
        by auto
    qed
  next
    case False
    then have da: "digits_of_nat a = digits_of_nat (a div 10) @ [char_of (48 + a mod 10)]"
      by (subst digits_of_nat.simps) simp
    show ?thesis
    proof (cases "b < 10")
      case True
      then have "digits_of_nat b = [char_of (48 + b)]"
        by (subst digits_of_nat.simps) simp
      with da "1.prems" digits_of_nat_nonempty [of "a div 10"] show ?thesis
        by auto
    next
      case bf: False
      then have "digits_of_nat b = digits_of_nat (b div 10) @ [char_of (48 + b mod 10)]"
        by (subst digits_of_nat.simps) simp
      with da "1.prems" have
        hi: "digits_of_nat (a div 10) = digits_of_nat (b div 10)"
        and lo: "char_of (48 + a mod 10) = (char_of (48 + b mod 10) :: char)"
        by auto
      from "1.IH" [OF False hi] have "a div 10 = b div 10" .
      moreover from lo have "a mod 10 = b mod 10"
        by (auto dest: digit_char_inj)
      ultimately show ?thesis
        by (metis div_mult_mod_eq)
    qed
  qed
qed

lemma str_of_int_inj: "0 \<le> a \<Longrightarrow> 0 \<le> b \<Longrightarrow> str_of_int a = str_of_int b \<Longrightarrow> a = b"
  by (auto simp: str_of_int_def dest: digits_of_nat_inj)

lemma page_url_distinct:
  assumes "0 < max_results_per_page self"
  shows "distinct (map (page_url self search) (range0 pages))"
proof -
  have "inj_on (page_url self search) (set (range0 pages))"
  proof (rule inj_onI)
    fix p q
    assume p: "p \<in> set (range0 pages)" and q: "q \<in> set (range0 pages)"
      and eq: "page_url self search p = page_url self search q"
    from p q have "0 \<le> p" "0 \<le> q"
      by (auto simp: range0_def)
    with assms have "0 \<le> p * max_results_per_page self" "0 \<le> q * max_results_per_page self"
      by simp_all
    moreover from eq have "str_of_int (p * max_results_per_page self)
                             = str_of_int (q * max_results_per_page self)"
      by (simp add: page_url_def)
    ultimately have "p * max_results_per_page self = q * max_results_per_page self"
      by (rule str_of_int_inj)
    with assms show "p = q" by simp
  qed
  moreover have "distinct (range0 pages)"
    by (simp add: range0_def distinct_map inj_on_def)
  ultimately show ?thesis
    by (simp add: distinct_map)
qed

lemma set_range0: "set (range0 pages) = {p. 0 \<le> p \<and> p < pages}"
proof -
  have "p \<in> int ` {0..<nat pages} \<longleftrightarrow> 0 \<le> p \<and> p < pages" for p
  proof
    assume "p \<in> int ` {0..<nat pages}"
    then show "0 \<le> p \<and> p < pages" by auto
  next
    assume "0 \<le> p \<and> p < pages"
    then have "nat p \<in> {0..<nat pages}" "p = int (nat p)" by auto
    then show "p \<in> int ` {0..<nat pages}" by blast
  qed
  then show ?thesis
    by (auto simp: range0_def)
qed

lemma fetch_pages_requests:
  "mset (requests (snd (fetch_pages c self sched search pages)))
     = mset (map (page_url self search) (range0 pages))"
  unfolding fetch_pages_def
  by (rule run_pool_requests) (rule search_page_requests)

lemma snd_bind_run:
  "snd (bind_run m f) = (case fst m of Inl e \<Rightarrow> snd m | Inr x \<Rightarrow> snd m @ snd (f x))"
  by (cases m; cases "fst m") (auto simp: bind_run_def split: prod.splits)

lemma requests_optional_warnings [simp]: "requests (optional_warnings s k) = []"
  by (simp add: optional_warnings_def split: sum.splits)

lemma requests_fix_date [simp]: "requests (snd (fix_date c job)) = []"
  by (simp add: fix_date_cases split: sum.splits)

lemma requests_scrape_job_soup [simp]: "requests (snd (scrape_job_soup c self s D)) = []"
proof (cases "required_stage c self s")
  case (Inl e)
  then show ?thesis
    by (simp add: scrape_job_soup_def)
next
  case (Inr req)
  obtain t co lo k u where req: "req = (t, co, lo, k, u)"
    by (cases req) auto
  obtain job where job: "extracted_job c self s = Some job"
    using Inr by (auto simp: extracted_job_def)
  have "requests (snd (fix_date c job)) = []"
    by simp
  then show ?thesis
    unfolding scrape_job_soup_extracted [OF Inr [unfolded req] job]
    by (cases "fix_date c job"; cases "fst (fix_date c job)") auto
qed

lemma requests_scrape_job_soups [simp]: "requests (snd (scrape_job_soups c self frags D)) = []"
  by (induction frags arbitrary: D) (auto simp: snd_bind_run split: sum.splits)

lemma scrape_requests:
  assumes "get_search_url c self ''get'' = Inr search" and "session_get c search = Inr html"
    and "get_num_pages_to_scrape self (BeautifulSoup c html) 0 = Inr pages"
  shows "requests (snd (scrape c self sched))
           = search # requests (snd (fetch_pages c self sched search pages))"
  using assms
  by (cases "fetch_pages c self sched search pages")
     (simp add: scrape_def collect_job_soups_def get_text_def log_def snd_bind_run)

text \<open>
  C4: for every page count, whatever the scheduler does, the fetch phase requests
  exactly the addresses \<open>search&start=p * page_size\<close> for the page indices \<open>p\<close> of
  \<open>range(0, pages)\<close>, that is \<open>0 \<le> p < pages\<close>: as many requests as pages, and, the page
  size being positive, each of these addresses exactly once. The requests of a whole
  \<open>scrape\<close> are the one of the search address itself, then these.
\<close>

theorem fetch_coverage:
  "mset (requests (snd (fetch_pages c self sched search pages)))
     = mset (map (\<lambda>p. search @ ''&start='' @ str_of_int (p * max_results_per_page self))
               (range0 pages))
   \<and> set (range0 pages) = {p. 0 \<le> p \<and> p < pages}
   \<and> length (requests (snd (fetch_pages c self sched search pages))) = nat pages
   \<and> (0 < max_results_per_page self \<longrightarrow> 0 \<le> p \<longrightarrow> p < pages \<longrightarrow>
        count_list (requests (snd (fetch_pages c self sched search pages)))
          (search @ ''&start='' @ str_of_int (p * max_results_per_page self)) = 1)
   \<and> (get_search_url c self ''get'' = Inr search \<longrightarrow> session_get c search = Inr html \<longrightarrow>
        get_num_pages_to_scrape self (BeautifulSoup c html) 0 = Inr pages \<longrightarrow>
        requests (snd (scrape c self sched))
          = search # requests (snd (fetch_pages c self sched search pages)))"
proof (intro conjI impI)
  assume "get_search_url c self ''get'' = Inr search" "session_get c search = Inr html"
    "get_num_pages_to_scrape self (BeautifulSoup c html) 0 = Inr pages"
  then show "requests (snd (scrape c self sched))
          = search # requests (snd (fetch_pages c self sched search pages))"
    by (rule scrape_requests)
next
  let ?reqs = "requests (snd (fetch_pages c self sched search pages))"
  have url: "page_url self search = (\<lambda>p. search @ ''&start='' @ str_of_int (p * max_results_per_page self))"
    by (rule ext) (simp add: page_url_def)
  show m: "mset ?reqs = mset (map (\<lambda>p. search @ ''&start='' @ str_of_int (p * max_results_per_page self))
               (range0 pages))"
    using fetch_pages_requests [of c self sched search pages] by (simp only: url)
  show "set (range0 pages) = {p. 0 \<le> p \<and> p < pages}"
    by (rule set_range0)
  have "length ?reqs = size (mset ?reqs)"
    by simp
  also have "\<dots> = length (range0 pages)"
    by (simp only: m size_mset length_map)
  finally show "length ?reqs = nat pages"
    by (simp add: range0_def)
  assume size: "0 < max_results_per_page self" and p: "0 \<le> p" "p < pages"
  from p have mem: "p \<in> set (range0 pages)"
    by (simp add: set_range0)
  have "distinct (map (page_url self search) (range0 pages))"
    using size by (rule page_url_distinct)
  then have "distinct ?reqs"
    using mset_eq_imp_distinct_iff [OF fetch_pages_requests [of c self sched search pages]]
    by simp
  moreover have "set ?reqs = set (map (page_url self search) (range0 pages))"
    by (rule mset_eq_setD) (rule fetch_pages_requests)
  then have "page_url self search p \<in> set ?reqs"
    using mem by simp
  ultimately have "count (mset ?reqs) (page_url self search p) = 1"
    by (simp add: distinct_count_atmost_1)
  then have "count_list ?reqs (page_url self search p) = 1"
    by (simp add: count_mset)
  then show "count_list ?reqs (search @ ''&start='' @ str_of_int (p * max_results_per_page self)) = 1"
    by (simp add: page_url_def)
qed


theorem fetch_coverage_witness:
  "(0::int) < max_results_per_page ex_scraper
   \<and> get_search_url ex_four ex_scraper ''get'' = Inr ex_search
   \<and> session_get ex_four ex_search = Inr ex_search
   \<and> get_num_pages_to_scrape ex_scraper (BeautifulSoup ex_four ex_search) 0 = Inr 2
   \<and> count_list (requests (snd (fetch_pages ex_four ex_scraper [1] ex_search 2)))
         (ex_search @ ''&start=50'') = 1
   \<and> mset (requests (snd (scrape ex_four ex_scraper [1])))
       = {#ex_search, ex_search @ ''&start=0'', ex_search @ ''&start=50''#}"
proof -
  have size: "(0::int) < max_results_per_page ex_scraper"
    by (simp add: ex_scraper_def init_def)
  have search: "get_search_url ex_four ex_scraper ''get'' = Inr ex_search"
    and html: "session_get ex_four ex_search = Inr ex_search"
    and pages: "get_num_pages_to_scrape ex_scraper (BeautifulSoup ex_four ex_search) 0 = Inr 2"
    by code_simp+
  have urls: "map (\<lambda>p. ex_search @ ''&start='' @ str_of_int (p * max_results_per_page ex_scraper))
                (range0 2) = [ex_search @ ''&start=0'', ex_search @ ''&start=50'']"
    by code_simp
  have one: "ex_search @ ''&start='' @ str_of_int (1 * max_results_per_page ex_scraper)
               = ex_search @ ''&start=50''"
    by code_simp
  from fetch_coverage [of ex_four ex_scraper "[1]" ex_search 2 1 ex_search] size search html pages
  show ?thesis
    unfolding urls one by simp
qed

subsection \<open>The required fields\<close>

lemma required_stage_cases:
  "required_stage c self s =
     (if jobTitle s = None \<or> company_span s = None \<or> location_span s = None
      then Inl AttributeError
      else (case get_id s of
              Inl e \<Rightarrow> Inl IndexError
            | Inr k \<Rightarrow> Inr (strip (the (jobTitle s)), strip (the (company_span s)),
                             strip (the (location_span s)), k, get_link c self k)))"
  by (auto simp: required_stage_def and_then_def get_title_def get_company_def get_location_def
        find_text_def split: option.splits sum.splits dest: get_id_error)

lemma missing_required_text_dropped:
  assumes "jobTitle s = None \<or> company_span s = None \<or> location_span s = None"
  shows "scrape_job_soup c self s D
           = (Inr D, [Logged ERROR ''Unable to scrape minimum-required job info!''])"
    and "scrape_job_soups c self (s # rest) D
           = (fst (scrape_job_soups c self rest D),
              Logged ERROR ''Unable to scrape minimum-required job info!''
                # snd (scrape_job_soups c self rest D))"
proof -
  from assms have "required_stage c self s = Inl AttributeError"
    by (simp add: required_stage_cases)
  then show body: "scrape_job_soup c self s D
           = (Inr D, [Logged ERROR ''Unable to scrape minimum-required job info!''])"
    by (rule scrape_job_soup_dropped)
  show "scrape_job_soups c self (s # rest) D
           = (fst (scrape_job_soups c self rest D),
              Logged ERROR ''Unable to scrape minimum-required job info!''
                # snd (scrape_job_soups c self rest D))"
    by (simp add: body)
qed

lemma missing_key_id_raises:
  assumes "jobTitle s \<noteq> None" "company_span s \<noteq> None" "location_span s \<noteq> None"
    and "get_id s = Inl e"
  shows "scrape_job_soup c self s D = (Inl IndexError, [])"
    and "fst (scrape_job_soups c self (s # rest) D) = Inl IndexError"
proof -
  from assms have "required_stage c self s = Inl IndexError"
    by (simp add: required_stage_cases)
  then show body: "scrape_job_soup c self s D = (Inl IndexError, [])"
    by (simp add: scrape_job_soup_raised)
  show "fst (scrape_job_soups c self (s # rest) D) = Inl IndexError"
    by (simp add: body)
qed

lemma yields_eq:
  "yields c self s =
     (case extracted_job c self s of
        None \<Rightarrow> Map.empty
      | Some job \<Rightarrow> (case fst (fix_date c job) of
                       Inl e \<Rightarrow> Map.empty
                     | Inr job' \<Rightarrow> [key_id job \<mapsto> job']))"
proof (cases "fst (scrape_job_soup c self s Map.empty)")
  case (Inl e)
  have "extracted_job c self s = Some job \<Longrightarrow> fst (fix_date c job) = Inr job' \<Longrightarrow> False" for job job'
  proof -
    assume job: "extracted_job c self s = Some job" and f: "fst (fix_date c job) = Inr job'"
    from job obtain t co lo where "required_stage c self s = Inr (t, co, lo, key_id job, url job)"
      by (auto dest: extracted_job_key)
    from scrape_job_soup_extracted [OF this job, of Map.empty] f Inl show False
      by (cases "fix_date c job") auto
  qed
  with Inl show ?thesis
    by (auto simp: yields_def split: option.splits sum.splits)
next
  case (Inr d)
  from scrape_job_soup_ok [OF Inr] Inr show ?thesis
    by (auto simp: yields_def)
qed

lemma dom_yields: "dom (yields c self s) = set_option (yield_key c self s)"
  by (auto simp: yields_eq yield_key_def split: option.splits sum.splits if_splits)

lemma scrape_job_soups_dom:
  "fst (scrape_job_soups c self frags D) = Inr d \<Longrightarrow>
     dom d = dom D \<union> (\<Union>s \<in> set frags. set_option (yield_key c self s))"
proof (induction frags arbitrary: D)
  case Nil
  then show ?case by simp
next
  case (Cons s rest)
  from Cons.prems obtain D1 where
    D1: "fst (scrape_job_soup c self s D) = Inr D1"
    and rest: "fst (scrape_job_soups c self rest D1) = Inr d"
    by (auto simp: fst_bind_run_Inr)
  have "dom D1 = dom D \<union> set_option (yield_key c self s)"
    using yields_add [OF D1] by (auto simp: dom_yields)
  with Cons.IH [OF rest] show ?case
    by auto
qed

lemma four_fragments_three_entries:
  "\<exists>d. fst (scrape ex_four ex_scraper []) = Inr d
     \<and> dom d = {''abc123'', ''b2'', ''d4''} \<and> card (dom d) = 3
     \<and> Logged ERROR ''Unable to scrape minimum-required job info!''
          \<in> set (snd (scrape ex_four ex_scraper []))"
proof -
  have "case fst (scrape ex_four ex_scraper []) of Inl e \<Rightarrow> False | Inr x \<Rightarrow> True"
    by code_simp
  then obtain d where d: "fst (scrape ex_four ex_scraper []) = Inr d"
    by (auto dest: fst_Inr_ex)
  have frags: "fst (collect_job_soups ex_four ex_scraper [])
                 = Inr [ex_soup ''Dev A'' ''abc123'', ex_soup ''Dev B'' ''b2'',
                        ex_no_title, ex_soup ''Dev D'' ''d4'']"
    by code_simp
  from d frags have loop: "fst (scrape_job_soups ex_four ex_scraper
                 [ex_soup ''Dev A'' ''abc123'', ex_soup ''Dev B'' ''b2'',
                  ex_no_title, ex_soup ''Dev D'' ''d4''] Map.empty) = Inr d"
    by (auto simp: scrape_result)
  have keys: "yield_key ex_four ex_scraper (ex_soup ''Dev A'' ''abc123'') = Some ''abc123''"
    "yield_key ex_four ex_scraper (ex_soup ''Dev B'' ''b2'') = Some ''b2''"
    "yield_key ex_four ex_scraper ex_no_title = None"
    "yield_key ex_four ex_scraper (ex_soup ''Dev D'' ''d4'') = Some ''d4''"
    by code_simp+
  have dom: "dom d = {''abc123'', ''b2'', ''d4''}"
    using scrape_job_soups_dom [OF loop] by (auto simp: keys)
  have "card {''abc123'', ''b2'', ''d4''} = 3"
    by simp
  with dom have card: "card (dom d) = 3"
    by simp
  have logged: "Logged ERROR ''Unable to scrape minimum-required job info!''
          \<in> set (snd (scrape ex_four ex_scraper []))"
    by code_simp
  from d dom card logged show ?thesis
    by blast
qed

text \<open>
  C2: the required-field policy holds for a missing title, company or location
  (lemmas \<open>missing_required_text_dropped\<close>, \<open>four_fragments_three_entries\<close>) but not
  for a missing \<open>key_id\<close>: \<open>get_id\<close> raises \<open>IndexError\<close>, which the handler for
  \<open>AttributeError\<close> does not catch. For the fragment \<open>ex_no_id\<close>, which has a title, a
  company and a location and no save-job link, the loop body leaves with
  \<open>IndexError\<close>, and so does \<open>scrape\<close> on a site with this fragment between two
  well-formed ones: no dictionary is returned at all.
\<close>

theorem missing_key_id_aborts_scrape:
  "get_title ex_no_id = Inr ''Dev H'' \<and> get_company ex_no_id = Inr ''Acme''
   \<and> get_location ex_no_id = Inr ''Waterloo, ON'' \<and> get_id ex_no_id = Inl IndexError
   \<and> scrape_job_soup ex_no_id_site ex_scraper ex_no_id Map.empty = (Inl IndexError, [])
   \<and> fst (collect_job_soups ex_no_id_site ex_scraper [])
       = Inr [ex_soup ''Dev A'' ''abc123'', ex_no_id, ex_soup ''Dev D'' ''d4'']
   \<and> fst (scrape ex_no_id_site ex_scraper []) = Inl IndexError"
proof -
  have fields: "get_title ex_no_id = Inr ''Dev H''" "get_company ex_no_id = Inr ''Acme''"
    "get_location ex_no_id = Inr ''Waterloo, ON''" "get_id ex_no_id = Inl IndexError"
    by code_simp+
  have present: "jobTitle ex_no_id \<noteq> None" "company_span ex_no_id \<noteq> None"
    "location_span ex_no_id \<noteq> None"
    by code_simp+
  have body: "scrape_job_soup ex_no_id_site ex_scraper ex_no_id Map.empty = (Inl IndexError, [])"
    using present fields(4) by (rule missing_key_id_raises)
  have frags: "fst (collect_job_soups ex_no_id_site ex_scraper [])
       = Inr [ex_soup ''Dev A'' ''abc123'', ex_no_id, ex_soup ''Dev D'' ''d4'']"
    by code_simp
  have "case fst (scrape ex_no_id_site ex_scraper []) of Inl e \<Rightarrow> e = IndexError | Inr d \<Rightarrow> False"
    by code_simp
  then have "fst (scrape ex_no_id_site ex_scraper []) = Inl IndexError"
    by (cases "fst (scrape ex_no_id_site ex_scraper [])") auto
  with fields body frags show ?thesis
    by simp
qed

subsection \<open>The secondary description fetch\<close>

text \<open>
  C9, as the claim states it, fails: when the description element is absent,
  \<open>get_full_description\<close> sets \<open>short_description\<close> to the empty string and does not
  touch \<open>description\<close>. For a record whose \<open>description\<close> is \<open>old text\<close> the call returns
  normally and \<open>description\<close> is still \<open>old text\<close>.
\<close>

theorem full_description_counterexample:
  "session_get ex_job_page_absent (url ex_job) = Inr (url ex_job)
   \<and> jobDescriptionText (BeautifulSoup ex_job_page_absent (url ex_job)) = None
   \<and> fst (get_full_description ex_job_page_absent ex_job)
       = Inr (ex_job\<lparr>short_description := Some []\<rparr>)
   \<and> description (ex_job\<lparr>short_description := Some []\<rparr>) = ''old text''
   \<and> description (ex_job\<lparr>short_description := Some []\<rparr>) \<noteq> []"
  by code_simp

text \<open>
  C9, amended: \<open>get_full_description\<close> makes exactly one request, of the record's
  \<open>url\<close>. When the request answers, the call returns normally; the record it leaves
  is the given one with \<open>short_description\<close> set to the stripped text of the
  description element, or to the empty string (with a warning) when the element is
  absent, and then passed through \<open>Job.clean_strings\<close>. The field \<open>description\<close> is not
  assigned.
\<close>

theorem full_description_sets_short_description:
  assumes "session_get c (url job) = Inr html"
  shows "requests (snd (get_full_description c job)) = [url job]
     \<and> (\<exists>job'. fst (get_full_description c job) = Inr (clean_strings c job')
           \<and> job' = job\<lparr>short_description :=
                          Some (case jobDescriptionText (BeautifulSoup c html) of
                                  None \<Rightarrow> [] | Some t \<Rightarrow> strip t)\<rparr>
           \<and> description job' = description job)
     \<and> (jobDescriptionText (BeautifulSoup c html) = None \<longrightarrow>
           get_full_description c job
             = (Inr (clean_strings c (job\<lparr>short_description := Some []\<rparr>)),
                [Logged INFO (''getting indeed page: '' @ url job), Requested (url job),
                 Logged WARNING (''Unable to load description for: '' @ url job)]))"
  using assms
  by (cases "jobDescriptionText (BeautifulSoup c html)")
     (simp_all add: get_full_description_def get_text_def log_def)

theorem full_description_sets_short_description_witness:
  "session_get ex_job_page_present (url ex_job) = Inr (url ex_job)
   \<and> requests (snd (get_full_description ex_job_page_present ex_job)) = [url ex_job]
   \<and> fst (get_full_description ex_job_page_present ex_job)
       = Inr (ex_job\<lparr>short_description := Some ''We build things.''\<rparr>)
   \<and> jobDescriptionText (BeautifulSoup ex_job_page_absent (url ex_job)) = None
   \<and> get_full_description ex_job_page_absent ex_job
       = (Inr (ex_job\<lparr>short_description := Some []\<rparr>),
          [Logged INFO ''getting indeed page: http://www.indeed.ca/viewjob?jk=abc123'',
           Requested ''http://www.indeed.ca/viewjob?jk=abc123'',
           Logged WARNING ''Unable to load description for: http://www.indeed.ca/viewjob?jk=abc123''])"
proof -
  have present: "session_get ex_job_page_present (url ex_job) = Inr (url ex_job)"
    and absent: "session_get ex_job_page_absent (url ex_job) = Inr (url ex_job)"
    by code_simp+
  have found: "jobDescriptionText (BeautifulSoup ex_job_page_present (url ex_job))
                = Some ''  We build things. ''"
    and none: "jobDescriptionText (BeautifulSoup ex_job_page_absent (url ex_job)) = None"
    by code_simp+
  have stripped: "strip ''  We build things. '' = ''We build things.''"
    by code_simp
  have clean: "clean_strings ex_job_page_present = (\<lambda>job. job)"
    "clean_strings ex_job_page_absent = (\<lambda>job. job)"
    by (simp_all add: ex_job_page_present_def ex_job_page_absent_def site_def)
  have u: "url ex_job = ''http://www.indeed.ca/viewjob?jk=abc123''"
    by (simp add: ex_job_def)
  from full_description_sets_short_description [OF present]
  have p: "requests (snd (get_full_description ex_job_page_present ex_job)) = [url ex_job]
           \<and> fst (get_full_description ex_job_page_present ex_job)
               = Inr (ex_job\<lparr>short_description := Some ''We build things.''\<rparr>)"
    by (simp add: found stripped clean)
  from full_description_sets_short_description [OF absent]
  have a: "get_full_description ex_job_page_absent ex_job
             = (Inr (ex_job\<lparr>short_description := Some []\<rparr>),
                [Logged INFO (''getting indeed page: '' @ url ex_job), Requested (url ex_job),
                 Logged WARNING (''Unable to load description for: '' @ url ex_job)])"
    by (simp add: none clean)
  from p a present none show ?thesis
    by (simp add: u)
qed

subsection \<open>The page count\<close>

lemma round_half_even_bounds:
  assumes M: "0 < M" and lo: "K' * M + R \<le> N" and hi: "N \<le> K * M" and R: "M < 2 * R"
  shows "K' < round_half_even N M \<and> round_half_even N M \<le> K"
proof -
  define q where "q = N div M"
  define r where "r = N mod M"
  have N: "N = q * M + r"
    by (simp add: q_def r_def)
  have r: "0 \<le> r" "r < M"
    using M by (simp_all add: r_def)
  have res: "round_half_even N M = q \<or> round_half_even N M = q + 1"
    by (auto simp: round_half_even_def Let_def q_def)
  have upper: "round_half_even N M \<le> K"
  proof (cases "N = K * M")
    case True
    with M show ?thesis
      by (simp add: round_half_even_def)
  next
    case False
    with hi have "N < K * M" by simp
    with N r have "q * M < K * M" by linarith
    with M have "q < K"
      by (simp add: mult_less_cancel_right_pos)
    with res show ?thesis by auto
  qed
  have "(q + 1) * M = q * M + M"
    by (simp add: algebra_simps)
  with lo N r R M have "K' * M < (q + 1) * M"
    by linarith
  with M have K'q: "K' \<le> q"
    by (simp add: mult_less_cancel_right_pos)
  have lower: "K' < round_half_even N M"
  proof (cases "K' = q")
    case True
    from lo [unfolded True] N have "R \<le> r" by linarith
    with R have "M < 2 * r" by simp
    then have "round_half_even N M = q + 1"
      by (simp add: round_half_even_def Let_def q_def r_def)
    with True show ?thesis by simp
  next
    case False
    with K'q res show ?thesis by auto
  qed
  from lower upper show ?thesis ..
qed

lemma ceil_div_between:
  assumes "0 < P" "(c - 1) * P < m" "m \<le> c * P"
  shows "- ((- m) div P) = (c::int)"
proof -
  have "\<lceil>real_of_int m / real_of_int P\<rceil> = c"
  proof (rule ceiling_unique)
    have "real_of_int ((c - 1) * P) < real_of_int m"
      using assms(2) by (simp only: of_int_less_iff)
    then show "real_of_int c - 1 < real_of_int m / real_of_int P"
      using assms(1) by (simp add: field_simps)
    have "real_of_int m \<le> real_of_int (c * P)"
      using assms(3) by (simp only: of_int_le_iff)
    then show "real_of_int m / real_of_int P \<le> real_of_int c"
      using assms(1) by (simp add: field_simps)
  qed
  then show ?thesis
    by (simp add: ceiling_divide_eq_div)
qed

lemma ceil_div_bounds:
  assumes "0 < (b::int)"
  shows "(- ((- a) div b) - 1) * b < a \<and> a \<le> - ((- a) div b) * b"
proof -
  define c where "c = - ((- a) div b)"
  have c: "\<lceil>real_of_int a / real_of_int b\<rceil> = c"
    by (simp add: c_def ceiling_divide_eq_div)
  from ceiling_correct [of "real_of_int a / real_of_int b"]
  have "real_of_int c - 1 < real_of_int a / real_of_int b"
    and "real_of_int a / real_of_int b \<le> real_of_int c"
    unfolding c by simp_all
  with assms have "real_of_int ((c - 1) * b) < real_of_int a" "real_of_int a \<le> real_of_int (c * b)"
    by (simp_all add: field_simps)
  then have "(c - 1) * b < a \<and> a \<le> c * b"
    by (simp only: of_int_less_iff of_int_le_iff)
  then show ?thesis
    by (simp add: c_def)
qed


lemma true_divide_ceil:
  assumes a: "0 < a" "a < 2 ^ 53" and b: "0 < b" "b < 2 ^ 53"
  shows "\<exists>f. true_divide a b = Inr f \<and> ceil f = - ((- a) div b)"
proof -
  define d where "d = bitlen a - bitlen b"
  define k where "k = (if b * 2 ^ nat d \<le> a * 2 ^ nat (- d) then d else d - 1)"
  define t where "t = nat (52 - k)"
  define m where "m = round_half_even (a * 2 ^ t) b"
  define c where "c = - ((- a) div b)"
  have la: "1 \<le> bitlen a" "bitlen a \<le> 53"
    using a by (simp_all add: bitlen_ge_iff_power bitlen_le_iff_power)
  have lb: "1 \<le> bitlen b" "bitlen b \<le> 53"
    using b by (simp_all add: bitlen_ge_iff_power bitlen_le_iff_power)
  have b_less: "b < 2 ^ nat (bitlen b)"
    using bitlen_bounds [OF b(1)] by simp
  have k: "d - 1 \<le> k" "k \<le> d"
    by (simp_all add: k_def)
  have d: "- 52 \<le> d" "d \<le> 52"
    using la lb by (simp_all add: d_def)
  have e: "max (k - 52) (- 1074) = - int t"
    using k d by (simp add: t_def)
  have t_le: "t \<le> 105"
    using k d by (simp add: t_def)
  have "nat (bitlen b) \<le> Suc t"
    using k la lb by (simp add: t_def d_def)
  then have "(2::int) ^ nat (bitlen b) \<le> 2 ^ Suc t"
    by (simp only: power_increasing_iff rel_simps)
  with b_less have bt: "b < 2 * 2 ^ t"
    by simp
  have cb: "(c - 1) * b < a" "a \<le> c * b"
    using ceil_div_bounds [OF b(1), of a] by (simp_all add: c_def)
  have "((c - 1) * b + 1) * 2 ^ t \<le> a * 2 ^ t"
    using cb(1) by (intro mult_right_mono) simp_all
  then have lo: "((c - 1) * 2 ^ t) * b + 2 ^ t \<le> a * 2 ^ t"
    by (simp add: algebra_simps)
  have "a * 2 ^ t \<le> (c * b) * 2 ^ t"
    using cb(2) by (intro mult_right_mono) simp_all
  then have hi: "a * 2 ^ t \<le> (c * 2 ^ t) * b"
    by (simp add: algebra_simps)
  have bounds: "(c - 1) * 2 ^ t < m" "m \<le> c * 2 ^ t"
    using round_half_even_bounds [OF b(1) lo hi bt] by (simp_all add: m_def)
  have c_le: "c \<le> a"
  proof (cases "c \<le> 1")
    case True
    with a show ?thesis by simp
  next
    case False
    then have "(c - 1) * 1 \<le> (c - 1) * b"
      using b(1) by (intro mult_left_mono) simp_all
    with cb(1) show ?thesis by simp
  qed
  have "m \<le> a * 2 ^ t"
  proof -
    have step: "c * 2 ^ t \<le> a * 2 ^ t"
      using c_le by (intro mult_right_mono) simp_all
    show ?thesis by (rule order_trans [OF bounds(2) step])
  qed
  also have "\<dots> < 2 ^ 53 * 2 ^ t"
    using a(2) by (intro mult_strict_right_mono) simp_all
  also have "\<dots> \<le> 2 ^ 53 * (2::int) ^ 105"
    using t_le by (intro mult_left_mono) (simp_all only: power_increasing_iff rel_simps, simp)
  also have "\<dots> \<le> 2 ^ 1024"
    by simp
  finally have m_small: "m < 2 ^ 1024" .
  have td: "true_divide a b = Inr (F64 m (- int t))"
    unfolding true_divide_def Let_def
    unfolding abs_of_pos [OF a(1)] abs_of_pos [OF b(1)]
    unfolding d_def [symmetric]
    unfolding k_def [symmetric]
    unfolding e
    using a(1) b(1) m_small by (simp add: m_def)
  have "ceil (F64 m (- int t)) = c"
  proof (cases "t = 0")
    case True
    with bounds show ?thesis by simp
  next
    case False
    have "- ((- m) div 2 ^ t) = c"
      by (rule ceil_div_between) (use bounds in simp_all)
    with False show ?thesis by simp
  qed
  with td show ?thesis
    by (simp add: c_def)
qed

lemma true_divide_examples:
  "true_divide 1 3 = Inr (F64 6004799503160661 (- 54))"
  "true_divide 1 10 = Inr (F64 7205759403792794 (- 56))"
  "true_divide 237 50 = Inr (F64 5336765558434038 (- 50))"
  "true_divide 7 0 = Inl ZeroDivisionError"
  by code_simp+

lemma true_divide_zero:
  "b \<noteq> 0 \<Longrightarrow> true_divide 0 b = Inr (F64 0 0)"
  by (simp add: true_divide_def)

lemma pages_for_exact:
  assumes n: "0 \<le> n" "n < 2 ^ 53"
    and size: "0 < max_results_per_page self" "max_results_per_page self < 2 ^ 53"
  shows "pages_for self n max_pages
           = Inr (let p = \<lceil>real_of_int n / real_of_int (max_results_per_page self)\<rceil>
                  in if max_pages = 0 then p else if p < max_pages then p else max_pages)"
proof -
  have "\<exists>f. true_divide n (max_results_per_page self) = Inr f
          \<and> ceil f = \<lceil>real_of_int n / real_of_int (max_results_per_page self)\<rceil>"
  proof (cases "n = 0")
    case True
    with size(1) show ?thesis
      by (simp add: true_divide_zero)
  next
    case False
    with n have "0 < n" by simp
    from true_divide_ceil [OF this n(2) size] show ?thesis
      by (simp add: ceiling_divide_eq_div)
  qed
  then show ?thesis
    by (auto simp: pages_for_def and_then_def Let_def)
qed

lemma page_count_237:
  "total_results ex_page_237 = Inr 237 \<and> get_num_pages_to_scrape ex_scraper ex_page_237 0 = Inr 5
   \<and> get_num_pages_to_scrape ex_scraper ex_page_237 3 = Inr 3"
  by code_simp

text \<open>
  C3: the page count is \<open>int(ceil(num_res / max_results_per_page))\<close>, where \<open>/\<close> is the
  division of doubles. It is the ceiling of the exact quotient for every count
  below \<open>2 ^ 53\<close>, with the cap the claim states (lemma \<open>pages_for_exact\<close>; 237 results
  give 5 pages, lemma \<open>page_count_237\<close>), but not for every count: the first page
  that announces 14,073,748,835,532,801 results gives 281474976710656 pages, one
  less than the ceiling of the quotient by the page size 50.
\<close>

theorem page_count_float_rounding:
  "total_results ex_page_huge = Inr 14073748835532801
   \<and> max_results_per_page ex_scraper = 50
   \<and> get_num_pages_to_scrape ex_scraper ex_page_huge 0 = Inr 281474976710656
   \<and> \<lceil>real_of_int 14073748835532801 / real_of_int 50\<rceil> = 281474976710657"
proof -
  have "total_results ex_page_huge = Inr 14073748835532801"
    and "max_results_per_page ex_scraper = 50"
    and "get_num_pages_to_scrape ex_scraper ex_page_huge 0 = Inr 281474976710656"
    by code_simp+
  moreover have "\<lceil>real_of_int 14073748835532801 / real_of_int 50\<rceil> = 281474976710657"
    by (simp add: ceiling_divide_eq_div)
  ultimately show ?thesis by simp
qed

lemma pages_for_exact_example:
  "pages_for ex_scraper 237 0 = Inr 5 \<and> pages_for ex_scraper 237 3 = Inr 3"
  using pages_for_exact [of 237 ex_scraper 0] pages_for_exact [of 237 ex_scraper 3]
  by (simp add: ex_scraper_def init_def ceiling_divide_eq_div)

end
